theory Spec2Isabelle
  imports Main
begin

section \<open>The authenticated-call runtime of the REST helper (helper.py)\<close>

text \<open>
  A shallow embedding of the session and call layer of \<^verbatim>\<open>RestHelper\<close>:
  \<^verbatim>\<open>init_http_head\<close>, \<^verbatim>\<open>do_call\<close>, \<^verbatim>\<open>_get_user_info\<close>, \<^verbatim>\<open>login\<close>,
  \<^verbatim>\<open>logout\<close>, \<^verbatim>\<open>relogin\<close>, \<^verbatim>\<open>call\<close> and \<^verbatim>\<open>_get_info_by_range\<close>.
  The model is sequential: the semaphore and the reader/writer lock only order concurrent
  callers and are left out, as is logging.  Every \<^verbatim>\<open>raise\<close> of the source
  is the \<open>Inl\<close> branch of a result; every method returns the helper object as it has
  left it.
\<close>

subsection \<open>Data\<close>

text \<open>
  A parsed body is kept as far as the program looks at it.  The result envelope is
  \<^verbatim>\<open>{"error": {"code": .., "description": ..}, "data": ..}\<close>.  What stands under the
  data key is missing (\<^verbatim>\<open>result.get(DATA_KEY, {})\<close> is then the empty dict), or is no
  dict (\<^verbatim>\<open>null\<close>, a list, a string, a number: it has no \<^verbatim>\<open>.get\<close>), or is a
  dict.  Of a dict only the three keys that \<^verbatim>\<open>login\<close> reads with \<^verbatim>\<open>.get\<close> are
  kept: \<open>deviceid\<close> is \<open>None\<close> for everything that cannot be appended to a string
  (missing, \<^verbatim>\<open>null\<close>, no string), \<open>iBaseToken\<close> and \<open>accountstate\<close> are \<open>None\<close> when
  missing or \<^verbatim>\<open>null\<close>.  A code is an integer; the program only compares it with
  \<^verbatim>\<open>==\<close>, \<^verbatim>\<open>!=\<close> and \<^verbatim>\<open>in\<close>, which never raise.
\<close>

record payload =
  deviceid :: "string option"
  iBaseToken :: "string option"
  accountstate :: "int option"

datatype data_field = NoData | NotDict | Data payload

record envelope =
  code :: int
  description :: string
  data :: data_field

text \<open>
  A body that parses need not be an envelope.  Every method reads a result first with
  \<^verbatim>\<open>_error_code\<close>, that is \<^verbatim>\<open>result['error']['code']\<close>; of a body on which this
  raises only the exception is kept: \<^verbatim>\<open>KeyError\<close> for a dict without the key
  (\<^verbatim>\<open>{}\<close>, \<^verbatim>\<open>{"error": {}}\<close>), \<^verbatim>\<open>TypeError\<close> for what cannot be subscripted with
  a string (\<^verbatim>\<open>[]\<close>, \<^verbatim>\<open>null\<close>, \<^verbatim>\<open>{"error": 5}\<close>).
\<close>

datatype fault = NoKey | NoSubscript

datatype res_json = Envelope envelope | Malformed fault

datatype http_method = GET | POST | PUT | DELETE

type_synonym body = "(string \<times> string) list"

text \<open>What goes on the wire for one request: the keyword arguments handed to the
  \<^verbatim>\<open>requests\<close> session method, and the token header of the session that sends it.\<close>

record request =
  req_url :: string
  req_method :: http_method
  req_data :: "body option"
  req_timeout :: int
  req_token :: "string option"

text \<open>
  What one request comes to: \<^verbatim>\<open>func(url, **kwargs)\<close> raised (connection refused,
  DNS, timeout, ...), or there is a response: its status code, the text that the
  \<^verbatim>\<open>HTTPError\<close> of \<^verbatim>\<open>raise_for_status\<close> has for it, and what \<^verbatim>\<open>res.json()\<close>
  makes of the body, with \<open>None\<close> when it raises.  \<^verbatim>\<open>raise_for_status\<close> of the
  \<^verbatim>\<open>requests\<close> library raises for the status codes from 400 to 599 and for no other.
\<close>

datatype http_outcome =
  RequestFailed
| Response int string "res_json option"

definition error_status :: "int \<Rightarrow> bool" where
  "error_status status = (400 \<le> status \<and> status < 600)"

text \<open>The exceptions that leave a method.  \<open>ShareBackendException\<close> carries the message
  and, when \<^verbatim>\<open>_assert_result\<close> raised it, the result formatted into the message.\<close>

datatype exn =
  ShareBackendException string "res_json option"
| TypeError
| AttributeError
| KeyError
| JSONDecodeError
| DecodeError

text \<open>
  The module \<^verbatim>\<open>constants\<close> is not part of the sources, so its values are parameters,
  together with the two things outside the program: the remote array, which answers a
  request knowing the requests it has received before, and \<^verbatim>\<open>base64.b64decode\<close>.
\<close>

record env =
  ERROR_CONNECT_TO_SERVER :: int
  ERROR_UNAUTHORIZED_TO_SERVER :: int
  RELOGIN_ERROR_CODE :: "int list"
  RELOGIN_ERROR_PASS :: int
  PWD_EXPIRED_OR_INITIAL :: "int list"
  SOCKET_TIMEOUT :: int
  LOGIN_SOCKET_TIMEOUT :: int
  MAX_QUERY_COUNT :: nat
  http :: "request list \<Rightarrow> request \<Rightarrow> http_outcome"
  b64decode :: "string \<Rightarrow> exn + string"

text \<open>\<^verbatim>\<open>requests.Session()\<close> as far as the helper uses it: the \<^verbatim>\<open>iBaseToken\<close> header
  (\<^verbatim>\<open>headers.get('iBaseToken')\<close>) and \<^verbatim>\<open>verify\<close> (\<open>None\<close> for \<^verbatim>\<open>False\<close>).\<close>

record http_session =
  token :: "string option"
  verify :: "string option"

text \<open>The helper object.  \<open>wire\<close> is not a field of the class: it is the list of the
  requests issued so far, oldest first, which is what the array has seen.\<close>

record rest_helper =
  nas_address :: "string list"
  nas_username :: string
  nas_password :: string
  ssl_cert_verify :: bool
  ssl_cert_path :: string
  url :: "string option"
  session :: "http_session option"
  wire :: "request list"

subsection \<open>Operations\<close>

definition raise_of :: "fault \<Rightarrow> exn" where
  "raise_of f = (case f of NoKey \<Rightarrow> KeyError | NoSubscript \<Rightarrow> TypeError)"

definition error_code :: "res_json \<Rightarrow> exn + int" where
  "error_code result =
     (case result of Malformed f \<Rightarrow> Inl (raise_of f) | Envelope r \<Rightarrow> Inr (code r))"

definition assert_result :: "res_json \<Rightarrow> string \<Rightarrow> exn + unit" where
  "assert_result result format_str =
     (case error_code result of
        Inl x \<Rightarrow> Inl x
      | Inr c \<Rightarrow>
          if c \<noteq> 0 then Inl (ShareBackendException format_str (Some result)) else Inr ())"

text \<open>\<^verbatim>\<open>__init__\<close>: no base URL and no session yet.\<close>

definition init :: "string list \<Rightarrow> string \<Rightarrow> string \<Rightarrow> bool \<Rightarrow> string \<Rightarrow> rest_helper" where
  "init address username password cert_verify cert_path =
     \<lparr>nas_address = address, nas_username = username, nas_password = password,
      ssl_cert_verify = cert_verify, ssl_cert_path = cert_path,
      url = None, session = None, wire = []\<rparr>"

definition init_http_head :: "rest_helper \<Rightarrow> rest_helper" where
  "init_http_head s =
     s\<lparr>url := None,
       session := Some \<lparr>token = None,
                        verify = (if ssl_cert_verify s then Some (ssl_cert_path s) else None)\<rparr>\<rparr>"

text \<open>Python's truth value of \<^verbatim>\<open>self.url\<close> and of \<^verbatim>\<open>data\<close>: \<^verbatim>\<open>None\<close> and the empty
  value are false.\<close>

definition truthy :: "'a list option \<Rightarrow> bool" where
  "truthy v = (case v of None \<Rightarrow> False | Some x \<Rightarrow> x \<noteq> [])"

text \<open>Lines 81 to 84 of \<^verbatim>\<open>do_call\<close>: the URL and the keyword arguments.\<close>

definition build_request ::
  "string \<Rightarrow> http_session \<Rightarrow> string \<Rightarrow> http_method \<Rightarrow> body option \<Rightarrow> int \<Rightarrow> request" where
  "build_request base h postfix_url method dat timeout =
     \<lparr>req_url = base @ postfix_url, req_method = method,
      req_data = (if truthy dat then dat else None),
      req_timeout = timeout, req_token = token h\<rparr>"

text \<open>
  \<^verbatim>\<open>do_call\<close>.  \<^verbatim>\<open>self.url + postfix_url\<close> raises \<^verbatim>\<open>TypeError\<close> when there is no base
  URL and \<^verbatim>\<open>getattr(self.session, ..)\<close> needs a session.  An exception of the request is
  caught and becomes the connect-failure envelope, an \<^verbatim>\<open>HTTPError\<close> becomes an envelope
  with the status code, and \<^verbatim>\<open>res.json()\<close> stands outside both \<^verbatim>\<open>try\<close> blocks; what
  it returns is returned as it is.
\<close>

definition do_call ::
  "env \<Rightarrow> rest_helper \<Rightarrow> string \<Rightarrow> http_method \<Rightarrow> body option \<Rightarrow> int
     \<Rightarrow> rest_helper \<times> (exn + res_json)" where
  "do_call e s postfix_url method dat timeout =
     (case url s of
        None \<Rightarrow> (s, Inl TypeError)
      | Some base \<Rightarrow>
          (case session s of
             None \<Rightarrow> (s, Inl AttributeError)
           | Some h \<Rightarrow>
               (let rq = build_request base h postfix_url method dat timeout;
                    s' = s\<lparr>wire := wire s @ [rq]\<rparr>
                in case http e (wire s) rq of
                     RequestFailed \<Rightarrow>
                       (s', Inr (Envelope \<lparr>code = ERROR_CONNECT_TO_SERVER e,
                                 description = ''Connect server error'', data = NoData\<rparr>))
                   | Response status text parsed \<Rightarrow>
                       if error_status status
                       then (s', Inr (Envelope \<lparr>code = status, description = text,
                                                 data = NoData\<rparr>))
                       else (case parsed of
                               None \<Rightarrow> (s', Inl JSONDecodeError)
                             | Some res_json \<Rightarrow> (s', Inr res_json)))))"

definition decode_credential :: "env \<Rightarrow> string \<Rightarrow> exn + string" where
  "decode_credential e v =
     (if take 4 v = ''!$$$'' then b64decode e (drop 4 v) else Inr v)"

definition get_user_info :: "env \<Rightarrow> rest_helper \<Rightarrow> exn + (string \<times> string)" where
  "get_user_info e s =
     (case decode_credential e (nas_username s) of
        Inl x \<Rightarrow> Inl x
      | Inr username \<Rightarrow>
          (case decode_credential e (nas_password s) of
             Inl x \<Rightarrow> Inl x
           | Inr password \<Rightarrow> Inr (username, password)))"

definition logout :: "env \<Rightarrow> rest_helper \<Rightarrow> rest_helper \<times> (exn + unit)" where
  "logout e s =
     (if truthy (url s) then
        (case do_call e s ''/sessions'' DELETE None (SOCKET_TIMEOUT e) of
           (s', Inl x) \<Rightarrow> (s', Inl x)
         | (s', Inr result) \<Rightarrow> (s', assert_result result ''Logout session error.''))
      else (s, Inr ()))"

definition login_data :: "string \<Rightarrow> string \<Rightarrow> body" where
  "login_data username password =
     [(''username'', username), (''password'', password), (''scope'', ''0'')]"

text \<open>\<^verbatim>\<open>result.get(DATA_KEY, {}).get(key)\<close>: \<^verbatim>\<open>AttributeError\<close> when what stands
  under the data key is no dict.\<close>

definition get_data :: "envelope \<Rightarrow> (payload \<Rightarrow> 'a option) \<Rightarrow> exn + 'a option" where
  "get_data result key =
     (case data result of
        NoData \<Rightarrow> Inr None
      | NotDict \<Rightarrow> Inl AttributeError
      | Data d \<Rightarrow> Inr (key d))"

text \<open>The test \<^verbatim>\<open>.. in PWD_EXPIRED_OR_INITIAL\<close> on an account state.\<close>

definition expired_state :: "env \<Rightarrow> int option \<Rightarrow> bool" where
  "expired_state e st =
     (case st of None \<Rightarrow> False | Some a \<Rightarrow> a \<in> set (PWD_EXPIRED_OR_INITIAL e))"

text \<open>
  The \<^verbatim>\<open>for\<close> loop of \<^verbatim>\<open>login\<close> over the endpoints still to try; the empty list is
  the \<^verbatim>\<open>else\<close> of the loop.  \<^verbatim>\<open>_error_code(result)\<close> raises on a body that is no
  envelope.  \<^verbatim>\<open>item_url + None\<close> raises \<^verbatim>\<open>TypeError\<close> when the answer has no device
  id, before \<^verbatim>\<open>self.url\<close> is assigned.
\<close>

fun login_loop ::
  "env \<Rightarrow> string \<Rightarrow> string \<Rightarrow> string list \<Rightarrow> rest_helper \<Rightarrow> rest_helper \<times> (exn + unit)" where
  "login_loop e username password [] s =
     (s, Inl (ShareBackendException ''All url login fail.'' None))"
| "login_loop e username password (item_url # rest) s =
     (let s1 = (init_http_head s)\<lparr>url := Some item_url\<rparr> in
      case do_call e s1 ''xx/sessions'' POST (Some (login_data username password))
             (LOGIN_SOCKET_TIMEOUT e) of
        (s2, Inl x) \<Rightarrow> (s2, Inl x)
      | (s2, Inr (Malformed f)) \<Rightarrow> (s2, Inl (raise_of f))
      | (s2, Inr (Envelope result)) \<Rightarrow>
          if code result \<noteq> 0 then login_loop e username password rest s2
          else
            (case get_data result deviceid of
               Inl x \<Rightarrow> (s2, Inl x)
             | Inr None \<Rightarrow> (s2, Inl TypeError)
             | Inr (Some dev) \<Rightarrow>
                 (case get_data result iBaseToken of
                    Inl x \<Rightarrow> (s2\<lparr>url := Some (item_url @ dev)\<rparr>, Inl x)
                  | Inr tok \<Rightarrow>
                      (case session s2 of
                         None \<Rightarrow> (s2\<lparr>url := Some (item_url @ dev)\<rparr>, Inl AttributeError)
                       | Some h \<Rightarrow>
                           (let s3 = s2\<lparr>url := Some (item_url @ dev),
                                         session := Some (h\<lparr>token := tok\<rparr>)\<rparr>
                            in case get_data result accountstate of
                                 Inl x \<Rightarrow> (s3, Inl x)
                               | Inr st \<Rightarrow>
                                   if expired_state e st then
                                     (case logout e s3 of
                                        (s4, Inl x) \<Rightarrow> (s4, Inl x)
                                      | (s4, Inr u) \<Rightarrow>
                                          (s4, Inl (ShareBackendException
                                            ''Password has expired or initial, please change the password.''
                                            None)))
                                   else (s3, Inr ()))))))"

definition login :: "env \<Rightarrow> rest_helper \<Rightarrow> rest_helper \<times> (exn + unit)" where
  "login e s =
     (case get_user_info e s of
        Inl x \<Rightarrow> (s, Inl x)
      | Inr (username, password) \<Rightarrow> login_loop e username password (nas_address s) s)"

text \<open>\<^verbatim>\<open>relogin\<close>.  \<^verbatim>\<open>self.session.headers\<close> in the \<^verbatim>\<open>elif\<close> is outside every
  \<^verbatim>\<open>try\<close>.\<close>

definition relogin :: "env \<Rightarrow> rest_helper \<Rightarrow> string option \<Rightarrow> rest_helper \<times> (exn + bool)" where
  "relogin e s old_token =
     (if url s = None then
        (case login e s of
           (s', Inl err) \<Rightarrow> (s', Inr False)
         | (s', Inr u) \<Rightarrow> (s', Inr True))
      else
        (case session s of
           None \<Rightarrow> (s, Inl AttributeError)
         | Some h \<Rightarrow>
             if old_token = token h then
               (case logout e s of
                  (s1, r) \<Rightarrow>
                    (case login e s1 of
                       (s', Inl err) \<Rightarrow> (s', Inr False)
                     | (s', Inr u) \<Rightarrow> (s', Inr True)))
             else (s, Inr True)))"

text \<open>
  The first \<^verbatim>\<open>with self.call_lock.read_lock()\<close> block of \<^verbatim>\<open>call\<close>: the token read and
  the first result.  \<open>timeout\<close> is the keyword argument of that name when the caller gave
  one; \<^verbatim>\<open>do_call\<close> defaults it to \<^verbatim>\<open>SOCKET_TIMEOUT\<close>.
\<close>

definition call_timeout :: "env \<Rightarrow> int option \<Rightarrow> int" where
  "call_timeout e timeout = (case timeout of None \<Rightarrow> SOCKET_TIMEOUT e | Some t \<Rightarrow> t)"

definition unauthorized :: "env \<Rightarrow> envelope" where
  "unauthorized e =
     \<lparr>code = ERROR_UNAUTHORIZED_TO_SERVER e, description = ''unauthorized.'', data = NoData\<rparr>"

definition call_first ::
  "env \<Rightarrow> rest_helper \<Rightarrow> string \<Rightarrow> http_method \<Rightarrow> body option \<Rightarrow> int option
     \<Rightarrow> rest_helper \<times> (exn + (string option \<times> res_json))" where
  "call_first e s postfix_url method dat timeout =
     (if truthy (url s) then
        (case session s of
           None \<Rightarrow> (s, Inl AttributeError)
         | Some h \<Rightarrow>
             (case do_call e s postfix_url method dat (call_timeout e timeout) of
                (s', Inl x) \<Rightarrow> (s', Inl x)
              | (s', Inr result) \<Rightarrow> (s', Inr (token h, result))))
      else (s, Inr (None, Envelope (unauthorized e))))"

text \<open>\<^verbatim>\<open>call\<close>.  Both results are read with \<^verbatim>\<open>_error_code\<close>, which raises on a body
  that is no envelope; the second one before its code is set to 0.\<close>

definition call ::
  "env \<Rightarrow> rest_helper \<Rightarrow> string \<Rightarrow> http_method \<Rightarrow> body option \<Rightarrow> int option
     \<Rightarrow> rest_helper \<times> (exn + res_json)" where
  "call e s postfix_url method dat timeout =
     (case call_first e s postfix_url method dat timeout of
        (s1, Inl x) \<Rightarrow> (s1, Inl x)
      | (s1, Inr (old_token, result)) \<Rightarrow>
          (case error_code result of
             Inl x \<Rightarrow> (s1, Inl x)
           | Inr c \<Rightarrow>
               if c \<in> set (RELOGIN_ERROR_CODE e) then
                 (case relogin e s1 old_token of
                    (s2, Inl x) \<Rightarrow> (s2, Inl x)
                  | (s2, Inr relogin_result) \<Rightarrow>
                      if relogin_result then
                        (case do_call e s2 postfix_url method dat (call_timeout e timeout) of
                           (s3, Inl x) \<Rightarrow> (s3, Inl x)
                         | (s3, Inr (Malformed f)) \<Rightarrow> (s3, Inl (raise_of f))
                         | (s3, Inr (Envelope result2)) \<Rightarrow>
                             if code result2 = RELOGIN_ERROR_PASS e
                             then (s3, Inr (Envelope (result2\<lparr>code := 0\<rparr>)))
                             else if code result2 = 0 then (s3, Inr (Envelope result2))
                             else (s3, Inr (Envelope result2)))
                      else (s2, Inr result))
               else (s1, Inr result)))"

subsection \<open>The pager\<close>

text \<open>
  \<^verbatim>\<open>_get_info_by_range\<close>.  The page function is a Python callable: it may change state
  and it may raise, so it is a function on a state \<open>'st\<close> that returns the new state with
  an exception or a page.  The \<^verbatim>\<open>while True\<close> loop need not end (a page function that
  never returns a short page, or \<^verbatim>\<open>MAX_QUERY_COUNT\<close> being 0), so the loop is a partial
  function and \<open>None\<close> is the run that does not return.  \<^verbatim>\<open>MAX_QUERY_COUNT\<close> is a
  count and is taken as a natural number.
\<close>

partial_function (option) range_loop ::
  "nat \<Rightarrow> (nat \<Rightarrow> nat \<Rightarrow> 'p \<Rightarrow> 'st \<Rightarrow> 'st \<times> (exn + 'a list)) \<Rightarrow> 'p \<Rightarrow> nat \<Rightarrow> 'a list \<Rightarrow> 'st
     \<Rightarrow> ('st \<times> (exn + 'a list)) option" where
  "range_loop max_query_count func params range_start info_list st =
     (let range_end = range_start + max_query_count in
      case func range_start range_end params st of
        (st', Inl x) \<Rightarrow> Some (st', Inl x)
      | (st', Inr info) \<Rightarrow>
          (let info_list' = info_list @ info in
           if length info < max_query_count then Some (st', Inr info_list')
           else range_loop max_query_count func params (range_start + max_query_count)
                  info_list' st'))"

definition get_info_by_range ::
  "env \<Rightarrow> (nat \<Rightarrow> nat \<Rightarrow> 'p \<Rightarrow> 'st \<Rightarrow> 'st \<times> (exn + 'a list)) \<Rightarrow> 'p \<Rightarrow> 'st
     \<Rightarrow> ('st \<times> (exn + 'a list)) option" where
  "get_info_by_range e func params st = range_loop (MAX_QUERY_COUNT e) func params 0 [] st"

subsection \<open>Observers used to state the properties\<close>

text \<open>A helper object is usable by \<^verbatim>\<open>do_call\<close> when a base URL comes with a session
  object, which is how \<^verbatim>\<open>login\<close> leaves it.\<close>

definition wf_helper :: "rest_helper \<Rightarrow> bool" where
  "wf_helper s = (url s \<noteq> None \<longrightarrow> session s \<noteq> None)"

text \<open>\<^verbatim>\<open>self.session.headers.get('iBaseToken')\<close>, with no session counted as no token.\<close>

definition held_token :: "rest_helper \<Rightarrow> string option" where
  "held_token s = (case session s of None \<Rightarrow> None | Some h \<Rightarrow> token h)"



text \<open>The request that \<^verbatim>\<open>login\<close> sends to one endpoint: the session is new, so it carries
  no token.\<close>

definition login_request :: "env \<Rightarrow> string \<Rightarrow> string \<Rightarrow> string \<Rightarrow> request" where
  "login_request e username password item_url =
     \<lparr>req_url = item_url @ ''xx/sessions'', req_method = POST,
      req_data = Some (login_data username password),
      req_timeout = LOGIN_SOCKET_TIMEOUT e, req_token = None\<rparr>"

text \<open>The array answers request \<open>rq\<close>, after the requests \<open>hist\<close>, with a status that is
  no error and a body that parses to the envelope \<open>result\<close>; with such a status and a body
  that does not parse; with such a status and a body that parses but is no envelope.\<close>

definition answers :: "env \<Rightarrow> request list \<Rightarrow> request \<Rightarrow> envelope \<Rightarrow> bool" where
  "answers e hist rq result =
     (case http e hist rq of
        RequestFailed \<Rightarrow> False
      | Response status text parsed \<Rightarrow>
          \<not> error_status status \<and> parsed = Some (Envelope result))"

definition unparsable :: "env \<Rightarrow> request list \<Rightarrow> request \<Rightarrow> bool" where
  "unparsable e hist rq =
     (case http e hist rq of
        RequestFailed \<Rightarrow> False
      | Response status text parsed \<Rightarrow> \<not> error_status status \<and> parsed = None)"

definition malformed :: "env \<Rightarrow> request list \<Rightarrow> request \<Rightarrow> fault \<Rightarrow> bool" where
  "malformed e hist rq f =
     (case http e hist rq of
        RequestFailed \<Rightarrow> False
      | Response status text parsed \<Rightarrow>
          \<not> error_status status \<and> parsed = Some (Malformed f))"

text \<open>An outcome from which \<^verbatim>\<open>do_call\<close> returns an envelope: the request raised, the
  status is an error, or the body parses to an envelope.\<close>

definition gives_envelope :: "http_outcome \<Rightarrow> bool" where
  "gives_envelope out =
     (case out of
        RequestFailed \<Rightarrow> True
      | Response status text parsed \<Rightarrow>
          error_status status
          \<or> (case parsed of Some (Envelope result) \<Rightarrow> True | _ \<Rightarrow> False))"

text \<open>The array answers request \<open>rq\<close>, after the requests \<open>hist\<close>, with a result whose code
  is not 0; and it does so for each of a list of endpoints tried one after the other.\<close>

definition rejects :: "env \<Rightarrow> request list \<Rightarrow> request \<Rightarrow> bool" where
  "rejects e hist rq =
     (case http e hist rq of
        RequestFailed \<Rightarrow> ERROR_CONNECT_TO_SERVER e \<noteq> 0
      | Response status text parsed \<Rightarrow>
          error_status status
          \<or> (case parsed of Some (Envelope result) \<Rightarrow> code result \<noteq> 0 | _ \<Rightarrow> False))"

text \<open>The account state of an answer is expired or initial; the token of an answer.\<close>

definition password_expired :: "env \<Rightarrow> envelope \<Rightarrow> bool" where
  "password_expired e result =
     (case get_data result accountstate of
        Inl x \<Rightarrow> False
      | Inr st \<Rightarrow> expired_state e st)"

definition returned_token :: "envelope \<Rightarrow> string option" where
  "returned_token result =
     (case get_data result iBaseToken of Inl x \<Rightarrow> None | Inr tok \<Rightarrow> tok)"

fun all_rejected :: "env \<Rightarrow> (string \<Rightarrow> request) \<Rightarrow> request list \<Rightarrow> string list \<Rightarrow> bool" where
  "all_rejected e mk hist [] = True"
| "all_rejected e mk hist (item_url # rest) =
     (rejects e hist (mk item_url) \<and> all_rejected e mk (hist @ [mk item_url]) rest)"

text \<open>The helper after \<^verbatim>\<open>login\<close> has tried the endpoints \<open>pre\<close> and each was rejected:
  the last one tried is the base URL, the session is new.\<close>

definition tried :: "env \<Rightarrow> string \<Rightarrow> string \<Rightarrow> string list \<Rightarrow> rest_helper \<Rightarrow> rest_helper" where
  "tried e username password pre s =
     (if pre = [] then s
      else (init_http_head s)\<lparr>url := Some (last pre),
             wire := wire s @ map (login_request e username password) pre\<rparr>)"

text \<open>The helper after the endpoints \<open>pre\<close> were rejected and \<open>item_url\<close> answered with
  \<open>result\<close>, of code 0 and with device id \<open>dev\<close>.\<close>

definition accepted ::
  "env \<Rightarrow> string \<Rightarrow> string \<Rightarrow> string list \<Rightarrow> string \<Rightarrow> string \<Rightarrow> envelope \<Rightarrow> rest_helper
     \<Rightarrow> rest_helper" where
  "accepted e username password pre item_url dev result s =
     (init_http_head s)\<lparr>url := Some (item_url @ dev),
        session := Some \<lparr>token = returned_token result,
                         verify = (if ssl_cert_verify s then Some (ssl_cert_path s) else None)\<rparr>,
        wire := wire s @ map (login_request e username password) (pre @ [item_url])\<rparr>"

text \<open>One call of the page function as the pager made it: the window and what came back.
  \<open>traced\<close> wraps a page function so that it writes each call into a log kept beside its
  state.\<close>

record 'a fetch =
  fetch_start :: nat
  fetch_end :: nat
  fetched :: "exn + 'a list"

definition traced ::
  "(nat \<Rightarrow> nat \<Rightarrow> 'p \<Rightarrow> 'st \<Rightarrow> 'st \<times> (exn + 'a list))
     \<Rightarrow> nat \<Rightarrow> nat \<Rightarrow> 'p \<Rightarrow> 'st \<times> 'a fetch list \<Rightarrow> ('st \<times> 'a fetch list) \<times> (exn + 'a list)" where
  "traced func a b params = (\<lambda>(st, log).
     case func a b params st of
       (st', r) \<Rightarrow> ((st', log @ [\<lparr>fetch_start = a, fetch_end = b, fetched = r\<rparr>]), r))"

text \<open>The log of fetching \<open>pages\<close> in windows of \<open>m\<close> from \<open>start\<close> on.\<close>

definition fetch_log :: "nat \<Rightarrow> nat \<Rightarrow> 'a list list \<Rightarrow> 'a fetch list" where
  "fetch_log m start pages =
     map (\<lambda>i. \<lparr>fetch_start = start + i * m, fetch_end = start + i * m + m,
                 fetched = Inr (pages ! i)\<rparr>) [0 ..< length pages]"

text \<open>From log \<open>log\<close> and list \<open>acc\<close>, the loop has fetched one window after the other,
  every page but the last full and the last one short, and has appended the pages in that
  order.\<close>

definition paged :: "nat \<Rightarrow> nat \<Rightarrow> 'a list \<Rightarrow> 'a fetch list \<Rightarrow> 'a fetch list \<Rightarrow> 'a list \<Rightarrow> bool" where
  "paged m start acc log log' items =
     (\<exists>pages. pages \<noteq> [] \<and> log' = log @ fetch_log m start pages
        \<and> items = acc @ concat pages
        \<and> (\<forall>p \<in> set (butlast pages). m \<le> length p) \<and> length (last pages) < m)"

text \<open>A page function backed by a data set: Python's \<^verbatim>\<open>ds[a:b]\<close>; and the log entry of
  its \<open>i\<close>-th window.\<close>

definition slice_of :: "'a list \<Rightarrow> nat \<Rightarrow> nat \<Rightarrow> 'p \<Rightarrow> 'st \<Rightarrow> 'st \<times> (exn + 'a list)" where
  "slice_of ds a b params st = (st, Inr (take (b - a) (drop a ds)))"

definition window :: "nat \<Rightarrow> 'a list \<Rightarrow> nat \<Rightarrow> 'a fetch" where
  "window m ds i = \<lparr>fetch_start = i * m, fetch_end = i * m + m,
                     fetched = Inr (take m (drop (i * m) ds))\<rparr>"

text \<open>Called on the windows of \<open>m\<close> from \<open>start\<close> on, one after the other and each time in
  the state the call before has left, the page function returns the pages \<open>pages\<close> and
  leaves the state \<open>st'\<close>.\<close>

fun serves ::
  "nat \<Rightarrow> (nat \<Rightarrow> nat \<Rightarrow> 'p \<Rightarrow> 'st \<Rightarrow> 'st \<times> (exn + 'a list)) \<Rightarrow> 'p \<Rightarrow> nat \<Rightarrow> 'st
     \<Rightarrow> 'a list list \<Rightarrow> 'st \<Rightarrow> bool" where
  "serves m func params start st [] st' = (st' = st)"
| "serves m func params start st (page # pages) st' =
     (case func start (start + m) params st of
        (st1, Inl x) \<Rightarrow> False
      | (st1, Inr info) \<Rightarrow> info = page \<and> serves m func params (start + m) st1 pages st')"

text \<open>A page function with a state: it hands out the pages of a queue, whatever the
  window, and an empty page when the queue is empty.\<close>

definition from_queue :: "nat \<Rightarrow> nat \<Rightarrow> 'p \<Rightarrow> 'a list list \<Rightarrow> 'a list list \<times> (exn + 'a list)" where
  "from_queue a b params queue =
     (case queue of [] \<Rightarrow> ([], Inr []) | page # rest \<Rightarrow> (rest, Inr page))"

subsection \<open>Example configuration\<close>

text \<open>An array that answers the \<open>i\<close>-th request it receives with the \<open>i\<close>-th entry of a
  script and cannot be reached afterwards; values for the constants; a helper before its
  first login and one that is logged in.\<close>

definition scripted :: "http_outcome list \<Rightarrow> request list \<Rightarrow> request \<Rightarrow> http_outcome" where
  "scripted outs hist rq =
     (if length hist < length outs then outs ! length hist else RequestFailed)"

definition example_env :: "(request list \<Rightarrow> request \<Rightarrow> http_outcome) \<Rightarrow> env" where
  "example_env srv =
     \<lparr>ERROR_CONNECT_TO_SERVER = - 403, ERROR_UNAUTHORIZED_TO_SERVER = - 401,
      RELOGIN_ERROR_CODE = [- 403, - 401], RELOGIN_ERROR_PASS = 1077949069,
      PWD_EXPIRED_OR_INITIAL = [3, 4], SOCKET_TIMEOUT = 52, LOGIN_SOCKET_TIMEOUT = 32,
      MAX_QUERY_COUNT = 100, http = srv, b64decode = (\<lambda>v. Inl DecodeError)\<rparr>"

definition fresh_helper :: rest_helper where
  "fresh_helper = init [''https://a/'', ''https://b/''] ''admin'' ''secret'' False []"

definition four_endpoints :: rest_helper where
  "four_endpoints =
     init [''https://a/'', ''https://b/'', ''https://c/'', ''https://d/'']
       ''admin'' ''secret'' False []"

definition logged_in :: rest_helper where
  "logged_in = fresh_helper\<lparr>url := Some ''https://a/dev1'',
                            session := Some \<lparr>token = Some ''T1'', verify = None\<rparr>\<rparr>"

definition answer :: "int \<Rightarrow> http_outcome" where
  "answer c = Response 200 ''OK'' (Some (Envelope \<lparr>code = c, description = [], data = NoData\<rparr>))"

definition login_ok :: "string \<Rightarrow> string \<Rightarrow> int \<Rightarrow> http_outcome" where
  "login_ok dev tok state =
     Response 200 ''OK''
       (Some (Envelope \<lparr>code = 0, description = [],
          data = Data \<lparr>deviceid = Some dev, iBaseToken = Some tok,
                        accountstate = Some state\<rparr>\<rparr>))"

definition garbled :: http_outcome where
  "garbled = Response 200 ''OK'' None"

section \<open>Properties\<close>

subsection \<open>What the operations leave alone\<close>

lemmas example_defs =
  scripted_def example_env_def fresh_helper_def four_endpoints_def logged_in_def init_def
  answer_def login_ok_def garbled_def

lemmas op_defs =
  login_def get_user_info_def decode_credential_def logout_def do_call_def
  build_request_def truthy_def login_data_def error_code_def assert_result_def raise_of_def
  get_data_def expired_state_def error_status_def init_http_head_def call_timeout_def Let_def

lemmas observer_defs =
  answers_def unparsable_def malformed_def gives_envelope_def rejects_def
  password_expired_def returned_token_def

lemma do_call_fields:
  "do_call e s p m d t = (s', r) \<Longrightarrow>
     url s' = url s \<and> session s' = session s \<and> nas_address s' = nas_address s
     \<and> nas_username s' = nas_username s \<and> nas_password s' = nas_password s
     \<and> ssl_cert_verify s' = ssl_cert_verify s \<and> ssl_cert_path s' = ssl_cert_path s"
  by (auto simp: do_call_def Let_def split: option.splits http_outcome.splits if_splits)

lemma do_call_Some:
  "url s = Some base \<Longrightarrow> session s = Some h \<Longrightarrow>
   do_call e s p m d t =
     (s\<lparr>wire := wire s @ [build_request base h p m d t]\<rparr>,
      case http e (wire s) (build_request base h p m d t) of
        RequestFailed \<Rightarrow> Inr (Envelope \<lparr>code = ERROR_CONNECT_TO_SERVER e,
                                 description = ''Connect server error'', data = NoData\<rparr>)
      | Response status text parsed \<Rightarrow>
          if error_status status
          then Inr (Envelope \<lparr>code = status, description = text, data = NoData\<rparr>)
          else (case parsed of None \<Rightarrow> Inl JSONDecodeError | Some res_json \<Rightarrow> Inr res_json))"
  by (simp add: do_call_def Let_def split: http_outcome.splits option.splits)

lemma do_call_returns:
  "do_call e s p m d t = (s', Inr r) \<Longrightarrow>
     \<exists>base h. url s = Some base \<and> session s = Some h
       \<and> s' = s\<lparr>wire := wire s @ [build_request base h p m d t]\<rparr>"
  by (auto simp: do_call_def Let_def split: option.splits http_outcome.splits if_splits)

lemma do_call_raises:
  "do_call e s p m d t = (s', Inl x) \<Longrightarrow> url s \<noteq> None \<Longrightarrow> session s \<noteq> None \<Longrightarrow>
     x = JSONDecodeError \<and> (\<exists>hist rq. unparsable e hist rq)"
proof -
  assume d: "do_call e s p m d t = (s', Inl x)" and "url s \<noteq> None" and "session s \<noteq> None"
  then obtain base h where u: "url s = Some base" and h: "session s = Some h" by auto
  from d have "x = JSONDecodeError \<and> unparsable e (wire s) (build_request base h p m d t)"
    unfolding do_call_Some [OF u h] unparsable_def
    by (auto split: http_outcome.splits option.splits if_splits)
  then show ?thesis by blast
qed

lemma do_call_malformed:
  "do_call e s p m d t = (s', Inr (Malformed f)) \<Longrightarrow> \<exists>hist rq. malformed e hist rq f"
proof -
  assume d: "do_call e s p m d t = (s', Inr (Malformed f))"
  from do_call_returns [OF d] obtain base h where u: "url s = Some base"
    and h: "session s = Some h" by blast
  from d have "malformed e (wire s) (build_request base h p m d t) f"
    unfolding do_call_Some [OF u h] malformed_def
    by (auto split: http_outcome.splits option.splits if_splits)
  then show ?thesis by blast
qed


lemma login_loop_returns:
  "login_loop e u p eps s = (s', Inr x) \<Longrightarrow> url s' \<noteq> None \<and> session s' \<noteq> None"
proof (induction eps arbitrary: s)
  case Nil
  then show ?case by simp
next
  case (Cons ep eps)
  then show ?case
    by (auto simp: Let_def
             split: prod.splits sum.splits if_splits option.splits res_json.splits
             dest!: do_call_fields)
qed

lemma login_returns:
  "login e s = (s', Inr x) \<Longrightarrow> url s' \<noteq> None \<and> session s' \<noteq> None"
  by (auto simp: login_def split: sum.splits prod.splits dest: login_loop_returns)

subsection \<open>Which exceptions leave \<^verbatim>\<open>relogin\<close> and \<^verbatim>\<open>call\<close>\<close>

lemma relogin_never_raises:
  "wf_helper s \<Longrightarrow> relogin e s tok = (s', r) \<Longrightarrow> \<exists>b. r = Inr b"
  by (auto simp: relogin_def wf_helper_def
           split: if_splits prod.splits sum.splits option.splits)

lemma relogin_True:
  "wf_helper s \<Longrightarrow> relogin e s tok = (s', Inr True) \<Longrightarrow> url s' \<noteq> None \<and> session s' \<noteq> None"
  by (auto simp: relogin_def wf_helper_def
           split: if_splits prod.splits sum.splits option.splits dest: login_returns)

lemma relogin_branches:
  "relogin e s old_token =
     (if url s = None then (fst (login e s), Inr (\<not> isl (snd (login e s))))
      else case session s of
             None \<Rightarrow> (s, Inl AttributeError)
           | Some h \<Rightarrow>
               if old_token = token h
               then (fst (login e (fst (logout e s))),
                     Inr (\<not> isl (snd (login e (fst (logout e s))))))
               else (s, Inr True))"
proof -
  have r: "(case x of (s', Inl err) \<Rightarrow> (s', Inr False) | (s', Inr v) \<Rightarrow> (s', Inr True))
             = (fst x, Inr (\<not> isl (snd x)))" for x :: "rest_helper \<times> (exn + unit)"
    by (cases x; cases "snd x") simp_all
  show ?thesis
    by (simp add: relogin_def r case_prod_beta split: option.splits)
qed

lemma call_first_raises:
  "call_first e s p m d t = (s', Inl x) \<Longrightarrow> wf_helper s \<Longrightarrow>
     x = JSONDecodeError \<and> (\<exists>hist rq. unparsable e hist rq)"
  by (auto simp: call_first_def wf_helper_def truthy_def
           split: if_splits prod.splits sum.splits option.splits dest: do_call_raises)

lemma call_first_malformed:
  "call_first e s p m d t = (s', Inr (tok, Malformed f)) \<Longrightarrow> \<exists>hist rq. malformed e hist rq f"
  by (auto simp: call_first_def
           split: if_splits prod.splits sum.splits option.splits dest: do_call_malformed)

lemma call_first_wf:
  "call_first e s p m d t = (s', r) \<Longrightarrow> wf_helper s \<Longrightarrow> wf_helper s'"
  by (auto simp: call_first_def wf_helper_def
           split: if_splits prod.splits sum.splits option.splits dest: do_call_fields)

text \<open>An exception that leaves \<^verbatim>\<open>call\<close> is the one of \<^verbatim>\<open>res.json()\<close> on a body
  that does not parse, or the one of \<^verbatim>\<open>_error_code\<close> on a body that is no envelope.\<close>

lemma call_raises:
  assumes "call e s p m d t = (s', Inl x)" and "wf_helper s"
  shows "(x = JSONDecodeError \<and> (\<exists>hist rq. unparsable e hist rq))
       \<or> (\<exists>f. x = raise_of f \<and> (\<exists>hist rq. malformed e hist rq f))"
proof (cases "call_first e s p m d t")
  case (Pair s1 r1)
  show ?thesis
  proof (cases r1)
    case (Inl y)
    with Pair assms show ?thesis
      by (auto simp: call_def dest: call_first_raises)
  next
    case (Inr tr)
    obtain tok result where tr: "tr = (tok, result)" by (cases tr)
    have wf1: "wf_helper s1" using Pair assms(2) by (rule call_first_wf)
    show ?thesis
    proof (cases result)
      case (Malformed f)
      with Pair Inr tr have "\<exists>hist rq. malformed e hist rq f"
        by (auto dest: call_first_malformed)
      with Pair Inr tr Malformed assms show ?thesis
        by (auto simp: call_def error_code_def)
    next
      case (Envelope r)
      show ?thesis
      proof (cases "code r \<in> set (RELOGIN_ERROR_CODE e)")
        case False
        with Pair Inr tr Envelope assms show ?thesis by (simp add: call_def error_code_def)
      next
        case True
        obtain s2 r2 where rl: "relogin e s1 tok = (s2, r2)" by (cases "relogin e s1 tok")
        from relogin_never_raises [OF wf1 rl] obtain b where b: "r2 = Inr b" ..
        show ?thesis
        proof (cases b)
          case False
          with Pair Inr tr Envelope assms True rl b show ?thesis
            by (simp add: call_def error_code_def)
        next
          case bt: True
          with relogin_True [OF wf1] rl b have us: "url s2 \<noteq> None \<and> session s2 \<noteq> None"
            by simp
          obtain s3 r3 where dc: "do_call e s2 p m d (call_timeout e t) = (s3, r3)"
            by (cases "do_call e s2 p m d (call_timeout e t)")
          show ?thesis
          proof (cases r3)
            case (Inl y)
            with dc us have "y = JSONDecodeError \<and> (\<exists>hist rq. unparsable e hist rq)"
              by (auto dest: do_call_raises)
            with Pair Inr tr Envelope assms True rl b bt dc Inl show ?thesis
              by (simp add: call_def error_code_def)
          next
            case r: (Inr res)
            show ?thesis
            proof (cases res)
              case (Malformed f)
              with dc r have "\<exists>hist rq. malformed e hist rq f"
                by (auto dest: do_call_malformed)
              with Pair Inr tr Envelope assms True rl b bt dc r Malformed show ?thesis
                by (auto simp: call_def error_code_def)
            next
              case e2: (Envelope r4)
              with Pair Inr tr Envelope assms True rl b bt dc r show ?thesis
                by (simp add: call_def error_code_def split: if_splits)
            qed
          qed
        qed
      qed
    qed
  qed
qed

lemma gives_envelope_parses:
  "gives_envelope (http e hist rq) \<Longrightarrow> \<not> unparsable e hist rq \<and> \<not> malformed e hist rq f"
  by (auto simp: gives_envelope_def unparsable_def malformed_def
           split: http_outcome.splits option.splits res_json.splits)

subsection \<open>\<^verbatim>\<open>call\<close> without a base URL\<close>

text \<open>
  Claim C7.  When \<^verbatim>\<open>self.url\<close> is false (\<^verbatim>\<open>None\<close> or empty), the first block of
  \<^verbatim>\<open>call\<close> yields the unauthorized envelope, with the code \<^verbatim>\<open>ERROR_UNAUTHORIZED_TO_SERVER\<close>
  and no token read, and leaves the helper as it was, so nothing has gone on the wire.
  That envelope is what \<^verbatim>\<open>call\<close> returns when its code asks for no relogin, and
  also when the relogin fails.
\<close>

theorem call_without_base_url:
  assumes "\<not> truthy (url s)"
  shows "call_first e s p m d t = (s, Inr (None, Envelope (unauthorized e)))
       \<and> code (unauthorized e) = ERROR_UNAUTHORIZED_TO_SERVER e
       \<and> (ERROR_UNAUTHORIZED_TO_SERVER e \<notin> set (RELOGIN_ERROR_CODE e)
            \<longrightarrow> call e s p m d t = (s, Inr (Envelope (unauthorized e))))
       \<and> (ERROR_UNAUTHORIZED_TO_SERVER e \<in> set (RELOGIN_ERROR_CODE e)
            \<longrightarrow> (\<forall>s2. relogin e s None = (s2, Inr False)
                   \<longrightarrow> call e s p m d t = (s2, Inr (Envelope (unauthorized e)))))"
  using assms by (simp add: call_first_def call_def unauthorized_def error_code_def)

theorem call_without_base_url_witness:
  "\<not> truthy (url fresh_helper)
   \<and> call_first (example_env (scripted [])) fresh_helper ''/filesystem'' GET None None
       = (fresh_helper,
          Inr (None, Envelope \<lparr>code = - 401, description = ''unauthorized.'', data = NoData\<rparr>))
   \<and> wire (fst (call_first (example_env (scripted [])) fresh_helper ''/filesystem'' GET None None))
       = []
   \<and> call ((example_env (scripted []))\<lparr>RELOGIN_ERROR_CODE := [- 403]\<rparr>) fresh_helper
        ''/filesystem'' GET None None
       = (fresh_helper,
          Inr (Envelope \<lparr>code = - 401, description = ''unauthorized.'', data = NoData\<rparr>))"
  using call_without_base_url [of fresh_helper "example_env (scripted [])"
          "''/filesystem''" GET None None]
        call_without_base_url [of fresh_helper
          "(example_env (scripted []))\<lparr>RELOGIN_ERROR_CODE := [- 403]\<rparr>"
          "''/filesystem''" GET None None]
  by (simp add: example_defs truthy_def unauthorized_def)

subsection \<open>Transport failures\<close>

lemma call_returns_envelope:
  "call e s p m d t = (s', Inr res) \<Longrightarrow> \<exists>r. res = Envelope r"
  by (auto simp: call_def error_code_def
           split: prod.splits sum.splits res_json.splits if_splits)

text \<open>
  Claim C8, as the code has it.  In \<^verbatim>\<open>do_call\<close>, a request that raised gives the
  connect-failure envelope.  A response with a status from 400 to 599, for which
  \<^verbatim>\<open>raise_for_status\<close> raises, gives an envelope with that status as code and the error
  text as description.  Every other status, 1xx and 3xx as well as 2xx, goes on to
  \<^verbatim>\<open>res.json()\<close>: the parsed body is returned as it is, and an exception of the parser
  leaves \<^verbatim>\<open>do_call\<close>.  On a helper whose base URL comes with a session, an exception
  that leaves \<^verbatim>\<open>call\<close> is the parser's on a body that does not parse or the one of
  \<^verbatim>\<open>_error_code\<close> on a body that is no envelope; so when every request raises, is
  answered with an error status, or is answered with an envelope, \<^verbatim>\<open>call\<close> returns an
  envelope.
\<close>

theorem transport_failures_become_envelopes:
  "(url s = Some base \<longrightarrow> session s = Some h
      \<longrightarrow> http e (wire s) (build_request base h p m d t) = RequestFailed
      \<longrightarrow> snd (do_call e s p m d t)
            = Inr (Envelope \<lparr>code = ERROR_CONNECT_TO_SERVER e,
                              description = ''Connect server error'', data = NoData\<rparr>))
   \<and> (url s = Some base \<longrightarrow> session s = Some h
      \<longrightarrow> http e (wire s) (build_request base h p m d t) = Response status text parsed
      \<longrightarrow> error_status status
      \<longrightarrow> snd (do_call e s p m d t)
            = Inr (Envelope \<lparr>code = status, description = text, data = NoData\<rparr>))
   \<and> (url s = Some base \<longrightarrow> session s = Some h
      \<longrightarrow> http e (wire s) (build_request base h p m d t) = Response status text parsed
      \<longrightarrow> \<not> error_status status
      \<longrightarrow> snd (do_call e s p m d t)
            = (case parsed of None \<Rightarrow> Inl JSONDecodeError | Some res_json \<Rightarrow> Inr res_json))
   \<and> (wf_helper s
      \<longrightarrow> (\<forall>s' x. call e s p m d tmo = (s', Inl x)
             \<longrightarrow> (x = JSONDecodeError \<and> (\<exists>hist rq. unparsable e hist rq))
               \<or> (\<exists>f. x = raise_of f \<and> (\<exists>hist rq. malformed e hist rq f))))
   \<and> (wf_helper s \<longrightarrow> (\<forall>hist rq. gives_envelope (http e hist rq))
      \<longrightarrow> (\<exists>s' r. call e s p m d tmo = (s', Inr (Envelope r))))"
proof (intro conjI impI allI)
  fix s' x
  assume "wf_helper s" and "call e s p m d tmo = (s', Inl x)"
  then show "(x = JSONDecodeError \<and> (\<exists>hist rq. unparsable e hist rq))
       \<or> (\<exists>f. x = raise_of f \<and> (\<exists>hist rq. malformed e hist rq f))"
    using call_raises by blast
next
  assume w: "wf_helper s" and g: "\<forall>hist rq. gives_envelope (http e hist rq)"
  obtain s' r where c: "call e s p m d tmo = (s', r)" by (cases "call e s p m d tmo")
  show "\<exists>s' r. call e s p m d tmo = (s', Inr (Envelope r))"
  proof (cases r)
    case (Inl x)
    with c w call_raises [of e s p m d tmo s' x] g gives_envelope_parses [of e]
    show ?thesis by blast
  next
    case (Inr res)
    with c call_returns_envelope [of e s p m d tmo s' res] show ?thesis by blast
  qed
qed (simp_all add: do_call_Some)

theorem transport_failures_become_envelopes_witness:
  "snd (do_call (example_env (scripted [])) logged_in ''/filesystem'' GET None 52)
     = Inr (Envelope \<lparr>code = - 403, description = ''Connect server error'', data = NoData\<rparr>)
   \<and> snd (do_call (example_env (scripted [Response 503 ''Service Unavailable'' None]))
            logged_in ''/filesystem'' GET None 52)
     = Inr (Envelope \<lparr>code = 503, description = ''Service Unavailable'', data = NoData\<rparr>)
   \<and> snd (do_call (example_env (scripted [Response 204 ''No Content'' None]))
            logged_in ''/filesystem'' GET None 52)
     = Inl JSONDecodeError
   \<and> (\<exists>s' r. call (example_env (scripted [])) logged_in ''/filesystem'' GET None None
               = (s', Inr (Envelope r)))"
proof -
  let ?e = "example_env (scripted [])"
  let ?e' = "example_env (scripted [Response 503 ''Service Unavailable'' None])"
  let ?e'' = "example_env (scripted [Response 204 ''No Content'' None])"
  let ?h = "\<lparr>token = Some ''T1'', verify = None\<rparr>"
  have u: "url logged_in = Some ''https://a/dev1''" and h: "session logged_in = Some ?h"
    by (simp_all add: example_defs)
  have wf: "wf_helper logged_in" by (simp add: wf_helper_def example_defs)
  have nb: "\<forall>hist rq. gives_envelope (http ?e hist rq)"
    by (simp add: gives_envelope_def example_defs)
  have a: "http ?e (wire logged_in)
             (build_request ''https://a/dev1'' ?h ''/filesystem'' GET None 52) = RequestFailed"
    by (simp add: example_defs)
  have b: "http ?e' (wire logged_in)
             (build_request ''https://a/dev1'' ?h ''/filesystem'' GET None 52)
           = Response 503 ''Service Unavailable'' None"
    and b': "error_status 503"
    by (simp_all add: example_defs error_status_def)
  have c: "http ?e'' (wire logged_in)
             (build_request ''https://a/dev1'' ?h ''/filesystem'' GET None 52)
           = Response 204 ''No Content'' None"
    and c': "\<not> error_status 204"
    by (simp_all add: example_defs error_status_def)
  note t = transport_failures_become_envelopes
  note t1 = t [THEN conjunct1, rule_format, OF u h a]
  note t2 = t [THEN conjunct2, THEN conjunct1, rule_format, OF u h b b']
  note t3 = t [THEN conjunct2, THEN conjunct2, THEN conjunct1, rule_format, OF u h c c']
  note t5 = t [THEN conjunct2, THEN conjunct2, THEN conjunct2, THEN conjunct2, rule_format,
             OF wf nb [rule_format], of "''/filesystem''" GET None None]
  from t1 t2 t3 t5 show ?thesis by (simp add: example_defs)
qed

theorem non_error_status_counterexample:
  "snd (do_call
          (example_env (scripted [Response 300 ''Multiple Choices''
             (Some (Envelope \<lparr>code = 0, description = [], data = NoData\<rparr>))]))
          logged_in ''/filesystem'' GET None 52)
     = Inr (Envelope \<lparr>code = 0, description = [], data = NoData\<rparr>)"
  by (simp add: op_defs example_defs)

subsection \<open>A body that does not parse\<close>

text \<open>
  Claim C10, as the code has it.  On a helper with a base URL and a session, an exception
  leaves \<^verbatim>\<open>do_call\<close> exactly when the request was answered with a status that is no
  error and a body that \<^verbatim>\<open>res.json()\<close> cannot parse.  The exception leaves \<^verbatim>\<open>call\<close>
  as well when the request is one of the two that \<^verbatim>\<open>call\<close> sends itself: the first
  one, and the one after a relogin that returned \<open>True\<close>; no other request follows.  It
  does not leave \<^verbatim>\<open>call\<close> when the request is one of \<^verbatim>\<open>login\<close> or \<^verbatim>\<open>logout\<close>
  inside \<^verbatim>\<open>relogin\<close>: whatever \<^verbatim>\<open>logout\<close> raises is dropped, and when \<^verbatim>\<open>login\<close>
  raises \<^verbatim>\<open>relogin\<close> returns \<open>False\<close>, on which \<^verbatim>\<open>call\<close> returns the first
  envelope.
\<close>

theorem body_parse_error_propagates:
  "(url s = Some base \<longrightarrow> session s = Some h
      \<longrightarrow> isl (snd (do_call e s p m d (call_timeout e t)))
            = unparsable e (wire s) (build_request base h p m d (call_timeout e t)))
   \<and> (url s = Some base \<longrightarrow> base \<noteq> [] \<longrightarrow> session s = Some h
      \<longrightarrow> unparsable e (wire s) (build_request base h p m d (call_timeout e t))
      \<longrightarrow> do_call e s p m d (call_timeout e t)
            = (s\<lparr>wire := wire s @ [build_request base h p m d (call_timeout e t)]\<rparr>,
               Inl JSONDecodeError)
        \<and> call e s p m d t
            = (s\<lparr>wire := wire s @ [build_request base h p m d (call_timeout e t)]\<rparr>,
               Inl JSONDecodeError))
   \<and> (\<forall>s1 tok r s2 base2 h2.
         call_first e s p m d t = (s1, Inr (tok, Envelope r))
         \<longrightarrow> code r \<in> set (RELOGIN_ERROR_CODE e)
         \<longrightarrow> relogin e s1 tok = (s2, Inr True)
         \<longrightarrow> url s2 = Some base2 \<longrightarrow> session s2 = Some h2
         \<longrightarrow> unparsable e (wire s2) (build_request base2 h2 p m d (call_timeout e t))
         \<longrightarrow> call e s p m d t
               = (s2\<lparr>wire := wire s2 @ [build_request base2 h2 p m d (call_timeout e t)]\<rparr>,
                  Inl JSONDecodeError))
   \<and> (\<forall>s1 tok. url s1 = None \<longrightarrow> isl (snd (login e s1))
         \<longrightarrow> snd (relogin e s1 tok) = Inr False)
   \<and> (\<forall>s1 h1. url s1 \<noteq> None \<longrightarrow> session s1 = Some h1
         \<longrightarrow> isl (snd (login e (fst (logout e s1))))
         \<longrightarrow> snd (relogin e s1 (token h1)) = Inr False)
   \<and> (\<forall>s1 tok r s2.
         call_first e s p m d t = (s1, Inr (tok, Envelope r))
         \<longrightarrow> code r \<in> set (RELOGIN_ERROR_CODE e)
         \<longrightarrow> relogin e s1 tok = (s2, Inr False)
         \<longrightarrow> call e s p m d t = (s2, Inr (Envelope r)))"
proof (intro conjI impI allI)
  assume u: "url s = Some base" and h: "session s = Some h"
  show "isl (snd (do_call e s p m d (call_timeout e t)))
          = unparsable e (wire s) (build_request base h p m d (call_timeout e t))"
    unfolding do_call_Some [OF u h] unparsable_def
    by (auto split: http_outcome.splits option.splits)
  assume n: "base \<noteq> []"
    and b: "unparsable e (wire s) (build_request base h p m d (call_timeout e t))"
  from b show d: "do_call e s p m d (call_timeout e t)
            = (s\<lparr>wire := wire s @ [build_request base h p m d (call_timeout e t)]\<rparr>,
               Inl JSONDecodeError)"
    unfolding do_call_Some [OF u h] unparsable_def
    by (auto split: http_outcome.splits option.splits)
  from u n h show "call e s p m d t
            = (s\<lparr>wire := wire s @ [build_request base h p m d (call_timeout e t)]\<rparr>,
               Inl JSONDecodeError)"
    by (simp add: call_def call_first_def truthy_def d)
next
  fix s1 tok r s2 base2 h2
  assume c: "call_first e s p m d t = (s1, Inr (tok, Envelope r))"
    and k: "code r \<in> set (RELOGIN_ERROR_CODE e)"
    and rl: "relogin e s1 tok = (s2, Inr True)"
    and u: "url s2 = Some base2" and h: "session s2 = Some h2"
    and b: "unparsable e (wire s2) (build_request base2 h2 p m d (call_timeout e t))"
  from b have "do_call e s2 p m d (call_timeout e t)
            = (s2\<lparr>wire := wire s2 @ [build_request base2 h2 p m d (call_timeout e t)]\<rparr>,
               Inl JSONDecodeError)"
    unfolding do_call_Some [OF u h] unparsable_def
    by (auto split: http_outcome.splits option.splits)
  with c k rl show "call e s p m d t
               = (s2\<lparr>wire := wire s2 @ [build_request base2 h2 p m d (call_timeout e t)]\<rparr>,
                  Inl JSONDecodeError)"
    by (simp add: call_def error_code_def)
next
  fix s1 :: rest_helper and tok
  assume "url s1 = None" and "isl (snd (login e s1))"
  then show "snd (relogin e s1 tok) = Inr False"
    by (simp add: relogin_branches)
next
  fix s1 h1
  assume "url s1 \<noteq> None" and "session s1 = Some h1"
    and "isl (snd (login e (fst (logout e s1))))"
  then show "snd (relogin e s1 (token h1)) = Inr False"
    by (auto simp: relogin_branches)
next
  fix s1 tok r s2
  assume "call_first e s p m d t = (s1, Inr (tok, Envelope r))"
    and "code r \<in> set (RELOGIN_ERROR_CODE e)"
    and "relogin e s1 tok = (s2, Inr False)"
  then show "call e s p m d t = (s2, Inr (Envelope r))"
    by (simp add: call_def error_code_def)
qed

theorem body_parse_error_propagates_witness:
  "snd (call (example_env (scripted [garbled])) logged_in ''/filesystem'' GET None None)
     = Inl JSONDecodeError
   \<and> map req_url (wire (fst (call (example_env (scripted [garbled])) logged_in
                                 ''/filesystem'' GET None None)))
     = [''https://a/dev1/filesystem'']
   \<and> snd (call (example_env (scripted [answer (- 401), answer 0, login_ok ''dev7'' ''T9'' 1,
                                        garbled]))
            logged_in ''/filesystem'' GET None None)
     = Inl JSONDecodeError
   \<and> map req_url
       (wire (fst (call (example_env (scripted [answer (- 401), answer 0,
                            login_ok ''dev7'' ''T9'' 1, garbled]))
                     logged_in ''/filesystem'' GET None None)))
     = [''https://a/dev1/filesystem'', ''https://a/dev1/sessions'', ''https://a/xx/sessions'',
        ''https://a/dev7/filesystem'']
   \<and> snd (relogin (example_env (scripted [garbled])) fresh_helper None) = Inr False"
proof -
  let ?e = "example_env (scripted [garbled])"
  let ?f = "example_env (scripted [answer (- 401), answer 0, login_ok ''dev7'' ''T9'' 1,
                                    garbled])"
  let ?h = "\<lparr>token = Some ''T1'', verify = None\<rparr>"
  let ?h2 = "\<lparr>token = Some ''T9'', verify = None\<rparr>"
  let ?r = "\<lparr>code = - 401, description = [], data = NoData\<rparr>"
  let ?rq1 = "\<lparr>req_url = ''https://a/dev1/filesystem'', req_method = GET, req_data = None,
                req_timeout = 52, req_token = Some ''T1''\<rparr>"
  let ?del = "\<lparr>req_url = ''https://a/dev1/sessions'', req_method = DELETE, req_data = None,
                req_timeout = 52, req_token = Some ''T1''\<rparr>"
  let ?lga = "login_request ?f ''admin'' ''secret'' ''https://a/''"
  let ?s1 = "logged_in\<lparr>wire := [?rq1]\<rparr>"
  let ?s2 = "logged_in\<lparr>url := Some ''https://a/dev7'', session := Some ?h2,
               wire := [?rq1, ?del, ?lga]\<rparr>"
  note t = body_parse_error_propagates
  have u: "url logged_in = Some ''https://a/dev1''" and n: "''https://a/dev1'' \<noteq> []"
    and h: "session logged_in = Some ?h"
    by (simp_all add: example_defs)
  have b: "unparsable ?e (wire logged_in)
             (build_request ''https://a/dev1'' ?h ''/filesystem'' GET None (call_timeout ?e None))"
    by (simp add: unparsable_def error_status_def example_defs)
  note first = t [THEN conjunct2, THEN conjunct1, rule_format, OF u n h b, THEN conjunct2]
  have f1: "call_first ?f logged_in ''/filesystem'' GET None None
              = (?s1, Inr (Some ''T1'', Envelope ?r))"
    by (simp add: call_first_def op_defs example_defs)
  have f2: "code ?r \<in> set (RELOGIN_ERROR_CODE ?f)" by (simp add: example_defs)
  have f3: "relogin ?f ?s1 (Some ''T1'') = (?s2, Inr True)"
    by (simp add: relogin_def op_defs login_request_def example_defs)
  have f4: "url ?s2 = Some ''https://a/dev7''" and f5: "session ?s2 = Some ?h2"
    by simp_all
  have f6: "unparsable ?f (wire ?s2)
              (build_request ''https://a/dev7'' ?h2 ''/filesystem'' GET None
                 (call_timeout ?f None))"
    by (simp add: unparsable_def error_status_def example_defs)
  note retry = t [THEN conjunct2, THEN conjunct2, THEN conjunct1, rule_format,
                 OF f1 f2 f3 f4 f5 f6]
  have g1: "url fresh_helper = None" by (simp add: example_defs)
  have g2: "isl (snd (login ?e fresh_helper))"
    by (simp add: op_defs example_defs)
  note inside = t [THEN conjunct2, THEN conjunct2, THEN conjunct2, THEN conjunct1,
                  rule_format, OF g1 g2]
  show ?thesis
    unfolding first retry
    using inside
    by (simp add: build_request_def truthy_def call_timeout_def login_request_def
          example_defs)
qed

theorem parse_error_inside_relogin_counterexample:
  "unparsable (example_env (scripted [answer (- 401), answer 0, garbled]))
     [\<lparr>req_url = ''https://a/dev1/filesystem'', req_method = GET, req_data = None,
       req_timeout = 52, req_token = Some ''T1''\<rparr>,
      \<lparr>req_url = ''https://a/dev1/sessions'', req_method = DELETE, req_data = None,
       req_timeout = 52, req_token = Some ''T1''\<rparr>]
     \<lparr>req_url = ''https://a/xx/sessions'', req_method = POST,
      req_data = Some [(''username'', ''admin''), (''password'', ''secret''),
                       (''scope'', ''0'')],
      req_timeout = 32, req_token = None\<rparr>
   \<and> wire (fst (call (example_env (scripted [answer (- 401), answer 0, garbled])) logged_in
                   ''/filesystem'' GET None None))
     = [\<lparr>req_url = ''https://a/dev1/filesystem'', req_method = GET, req_data = None,
         req_timeout = 52, req_token = Some ''T1''\<rparr>,
        \<lparr>req_url = ''https://a/dev1/sessions'', req_method = DELETE, req_data = None,
         req_timeout = 52, req_token = Some ''T1''\<rparr>,
        \<lparr>req_url = ''https://a/xx/sessions'', req_method = POST,
         req_data = Some [(''username'', ''admin''), (''password'', ''secret''),
                          (''scope'', ''0'')],
         req_timeout = 32, req_token = None\<rparr>]
   \<and> snd (call (example_env (scripted [answer (- 401), answer 0, garbled])) logged_in
            ''/filesystem'' GET None None)
     = Inr (Envelope \<lparr>code = - 401, description = [], data = NoData\<rparr>)"
  by (simp add: call_def call_first_def relogin_def unparsable_def op_defs example_defs)

subsection \<open>The pager\<close>

lemma fetch_log_Cons:
  "fetch_log m start (p # ps) =
     \<lparr>fetch_start = start, fetch_end = start + m, fetched = Inr p\<rparr>
       # fetch_log m (start + m) ps"
  by (simp add: fetch_log_def map_upt_Suc add.assoc add.commute del: upt_Suc)

lemma paged_last:
  "length info < m \<Longrightarrow>
   paged m start acc log
     (log @ [\<lparr>fetch_start = start, fetch_end = start + m, fetched = Inr info\<rparr>]) (acc @ info)"
  unfolding paged_def
  by (rule exI [of _ "[info]"]) (simp add: fetch_log_def)

lemma paged_step:
  assumes "\<not> length info < m"
    and "paged m (start + m) (acc @ info)
           (log @ [\<lparr>fetch_start = start, fetch_end = start + m, fetched = Inr info\<rparr>])
           log' items"
  shows "paged m start acc log log' items"
proof -
  from assms(2) obtain pages where ps: "pages \<noteq> []"
    "log' = (log @ [\<lparr>fetch_start = start, fetch_end = start + m, fetched = Inr info\<rparr>])
              @ fetch_log m (start + m) pages"
    "items = (acc @ info) @ concat pages"
    "\<forall>p \<in> set (butlast pages). m \<le> length p" "length (last pages) < m"
    unfolding paged_def by blast
  show ?thesis
    unfolding paged_def
    by (rule exI [of _ "info # pages"]) (use ps assms(1) in \<open>simp add: fetch_log_Cons\<close>)
qed

text \<open>Whatever the page function, a run of the loop that returns a list has fetched
  window after window; by induction on the loop as a least fixed point.\<close>

lemma range_loop_traced:
  assumes "range_loop m f params start acc stl = Some y"
  shows "\<forall>func st log st' log' items.
           f = traced func \<longrightarrow> stl = (st, log) \<longrightarrow> y = ((st', log'), Inr items)
             \<longrightarrow> paged m start acc log log' items"
  using assms
proof (rule range_loop.raw_induct [rotated])
  fix rl m f params start acc stl y
  assume IH: "\<And>m f params start acc stl y. rl m f params start acc stl = Some y \<Longrightarrow>
        \<forall>func st log st' log' items.
           f = traced func \<longrightarrow> stl = (st, log) \<longrightarrow> y = ((st', log'), Inr items)
             \<longrightarrow> paged m start acc log log' items"
    and body: "(let range_end = start + m
      in case f start range_end params stl of
         (st', Inl x) \<Rightarrow> Some (st', Inl x)
         | (st', Inr info) \<Rightarrow>
             let info_list' = acc @ info
             in if length info < m
                then Some (st', Inr info_list')
                else rl m f params (start + m) info_list' st') = Some y"
  show "\<forall>func st log st' log' items.
           f = traced func \<longrightarrow> stl = (st, log) \<longrightarrow> y = ((st', log'), Inr items)
             \<longrightarrow> paged m start acc log log' items"
  proof (intro allI impI)
    fix func st log st' log' items
    assume f: "f = traced func" and stl: "stl = (st, log)"
      and y: "y = ((st', log'), Inr items)"
    obtain st1 r where fr: "func start (start + m) params st = (st1, r)"
      by (cases "func start (start + m) params st")
    show "paged m start acc log log' items"
    proof (cases r)
      case (Inl x)
      with body f stl y fr show ?thesis by (simp add: traced_def Let_def)
    next
      case (Inr info)
      show ?thesis
      proof (cases "length info < m")
        case True
        with body f stl y fr Inr show ?thesis
          by (auto simp: traced_def Let_def intro: paged_last)
      next
        case False
        with body f stl y fr Inr
        have "rl m (traced func) params (start + m) (acc @ info)
                (st1, log @ [\<lparr>fetch_start = start, fetch_end = start + m,
                              fetched = Inr info\<rparr>])
              = Some ((st', log'), Inr items)"
          by (simp add: traced_def Let_def)
        from IH [OF this] have "paged m (start + m) (acc @ info)
           (log @ [\<lparr>fetch_start = start, fetch_end = start + m, fetched = Inr info\<rparr>])
           log' items"
          by blast
        with False show ?thesis by (rule paged_step)
      qed
    qed
  qed
qed

text \<open>Over a data set the loop returns, whatever the size of the set; by induction on
  the number of items not yet fetched.\<close>

lemma range_loop_slice:
  assumes "0 < m" and "k * m \<le> length ds"
  shows "range_loop m (traced (slice_of ds)) params (k * m) acc (st, log)
       = Some ((st, log @ map (window m ds) [k ..< Suc (length ds div m)]),
               Inr (acc @ drop (k * m) ds))"
  using assms(2)
proof (induction "length ds - k * m" arbitrary: k acc log rule: less_induct)
  case less
  show ?case
  proof (cases "length ds - k * m < m")
    case True
    have "m * k \<le> length ds" "length ds < m * Suc k"
      using True less.prems by (simp_all add: mult.commute)
    then have k: "length ds div m = k" by (rule div_nat_eqI)
    have short: "take m (drop (k * m) ds) = drop (k * m) ds"
      using True by simp
    show ?thesis
      apply (subst range_loop.simps)
      using True
      apply (simp add: traced_def slice_of_def k window_def short Let_def)
      done
  next
    case False
    have le: "Suc k * m \<le> length ds" using False less.prems by simp
    have lt: "length ds - Suc k * m < length ds - k * m" using False assms(1) by simp
    have kd: "k \<le> length ds div m"
      using less.prems assms(1) by (simp add: less_eq_div_iff_mult_less_eq)
    have upt: "[k ..< Suc (length ds div m)] = k # [Suc k ..< Suc (length ds div m)]"
      using kd by (simp add: upt_conv_Cons)
    have glue: "take m (drop (k * m) ds) @ drop (Suc k * m) ds = drop (k * m) ds"
    proof -
      have "take m (drop (k * m) ds) @ drop m (drop (k * m) ds) = drop (k * m) ds"
        by (rule append_take_drop_id)
      then show ?thesis by simp
    qed
    have step: "range_loop m (traced (slice_of ds)) params (k * m) acc (st, log)
       = range_loop m (traced (slice_of ds)) params (Suc k * m)
           (acc @ take m (drop (k * m) ds)) (st, log @ [window m ds k])"
      apply (subst range_loop.simps)
      using False
      apply (simp add: traced_def slice_of_def window_def add.commute Let_def)
      done
    show ?thesis
      unfolding step less.hyps [OF lt le] upt
      using glue by simp
  qed
qed

text \<open>One turn of the loop, whatever the page function: a short page ends it, a page
  that is not short moves it to the next window, an exception ends it.\<close>

lemma range_loop_short:
  "func start (start + m) params st = (st', Inr info) \<Longrightarrow> length info < m \<Longrightarrow>
   range_loop m func params start acc st = Some (st', Inr (acc @ info))"
  by (subst range_loop.simps) (simp add: Let_def)

lemma range_loop_full:
  "func start (start + m) params st = (st', Inr info) \<Longrightarrow> m \<le> length info \<Longrightarrow>
   range_loop m func params start acc st
     = range_loop m func params (start + m) (acc @ info) st'"
  by (subst range_loop.simps) (simp add: Let_def)

lemma range_loop_raise:
  "func start (start + m) params st = (st', Inl x) \<Longrightarrow>
   range_loop m func params start acc st = Some (st', Inl x)"
  by (subst range_loop.simps) (simp add: Let_def)

text \<open>The loop returns when the page function comes to a short page; by induction on the
  pages before it.\<close>

lemma range_loop_serves:
  "serves m func params start st pages st' \<Longrightarrow> pages \<noteq> [] \<Longrightarrow>
   \<forall>p \<in> set (butlast pages). m \<le> length p \<Longrightarrow> length (last pages) < m \<Longrightarrow>
   range_loop m func params start acc st = Some (st', Inr (acc @ concat pages))"
proof (induction pages arbitrary: start st acc)
  case Nil
  then show ?case by simp
next
  case (Cons page pages)
  from Cons.prems(1) obtain st1 where
    f: "func start (start + m) params st = (st1, Inr page)"
    and rest: "serves m func params (start + m) st1 pages st'"
    by (auto split: prod.splits sum.splits)
  show ?case
  proof (cases "pages = []")
    case True
    with rest have "st' = st1" by simp
    moreover from True Cons.prems(4) have "length page < m" by simp
    ultimately show ?thesis using f True by (simp add: range_loop_short)
  next
    case False
    with Cons.prems(3) have full: "m \<le> length page"
      and more: "\<forall>p \<in> set (butlast pages). m \<le> length p" by simp_all
    from False Cons.prems(4) have short: "length (last pages) < m" by simp
    from Cons.IH [OF rest False more short, of "acc @ page"]
    show ?thesis
      by (simp add: range_loop_full [where func = func and start = start and m = m
            and params = params and st = st, OF f full])
  qed
qed

lemma serves_traced:
  "serves m func params start st pages st' \<Longrightarrow>
   serves m (traced func) params start (st, log) pages (st', log @ fetch_log m start pages)"
proof (induction pages arbitrary: start st log)
  case Nil
  then show ?case by (simp add: fetch_log_def)
next
  case (Cons page pages)
  from Cons.prems obtain st1 where
    f: "func start (start + m) params st = (st1, Inr page)"
    and rest: "serves m func params (start + m) st1 pages st'"
    by (auto split: prod.splits sum.splits)
  from Cons.IH [OF rest,
                of "log @ [\<lparr>fetch_start = start, fetch_end = start + m, fetched = Inr page\<rparr>]"]
  show ?case by (simp add: traced_def f fetch_log_Cons)
qed

text \<open>
  Claim C9.  One turn of the loop of \<^verbatim>\<open>_get_info_by_range\<close>, whatever the page function
  and its state: the function is called on the window \<open>[start, start + m)\<close>; when the
  page has fewer than \<open>m\<close> items the loop returns the list with the page appended, when it
  has \<open>m\<close> or more the loop goes on from \<open>start + m\<close> with the page appended, and an
  exception of the page function ends it.  \<^verbatim>\<open>_get_info_by_range\<close> is the loop from
  window 0 with the empty list and \<open>m = MAX_QUERY_COUNT\<close>.  So when the page function,
  called on \<open>[0, m)\<close>, \<open>[m, 2m)\<close>, ... in turn, returns pages of which the last is the
  first short one, \<^verbatim>\<open>_get_info_by_range\<close> returns: with the pages appended in that
  order, after one fetch for each page.  Conversely, a run that returns a list has fetched
  in this way.  When the pages are the slices of a data set and \<open>m\<close> is positive it
  returns the whole data set after \<open>length ds div m + 1\<close> fetches.
\<close>

theorem pager_fetches_windows:
  "(\<forall>st' info. func start (start + m) params st = (st', Inr info) \<longrightarrow> length info < m
      \<longrightarrow> range_loop m func params start acc st = Some (st', Inr (acc @ info)))
   \<and> (\<forall>st' info. func start (start + m) params st = (st', Inr info) \<longrightarrow> m \<le> length info
      \<longrightarrow> range_loop m func params start acc st
            = range_loop m func params (start + m) (acc @ info) st')
   \<and> (\<forall>st' x. func start (start + m) params st = (st', Inl x)
      \<longrightarrow> range_loop m func params start acc st = Some (st', Inl x))
   \<and> get_info_by_range e func params st = range_loop (MAX_QUERY_COUNT e) func params 0 [] st
   \<and> (\<forall>pages st'.
        serves (MAX_QUERY_COUNT e) func params 0 st pages st' \<longrightarrow> pages \<noteq> []
        \<longrightarrow> (\<forall>p \<in> set (butlast pages). MAX_QUERY_COUNT e \<le> length p)
        \<longrightarrow> length (last pages) < MAX_QUERY_COUNT e
        \<longrightarrow> get_info_by_range e func params st = Some (st', Inr (concat pages))
          \<and> get_info_by_range e (traced func) params (st, [])
              = Some ((st', fetch_log (MAX_QUERY_COUNT e) 0 pages), Inr (concat pages)))
   \<and> (\<forall>st' log' items.
        get_info_by_range e (traced func) params (st, []) = Some ((st', log'), Inr items)
        \<longrightarrow> paged (MAX_QUERY_COUNT e) 0 [] [] log' items)
   \<and> (0 < MAX_QUERY_COUNT e \<longrightarrow>
        get_info_by_range e (traced (slice_of ds)) params' (st0, [])
          = Some ((st0, map (window (MAX_QUERY_COUNT e) ds)
                          [0 ..< Suc (length ds div MAX_QUERY_COUNT e)]),
                  Inr ds))"
proof (intro conjI allI impI)
  fix pages st'
  assume sv: "serves (MAX_QUERY_COUNT e) func params 0 st pages st'" and ne: "pages \<noteq> []"
    and full: "\<forall>p \<in> set (butlast pages). MAX_QUERY_COUNT e \<le> length p"
    and short: "length (last pages) < MAX_QUERY_COUNT e"
  from range_loop_serves [OF sv ne full short, of "[]"]
  show "get_info_by_range e func params st = Some (st', Inr (concat pages))"
    by (simp add: get_info_by_range_def)
  from range_loop_serves [OF serves_traced [OF sv, of "[]"] ne full short, of "[]"]
  show "get_info_by_range e (traced func) params (st, [])
          = Some ((st', fetch_log (MAX_QUERY_COUNT e) 0 pages), Inr (concat pages))"
    by (simp add: get_info_by_range_def)
next
  fix st' log' items
  assume "get_info_by_range e (traced func) params (st, []) = Some ((st', log'), Inr items)"
  then have "range_loop (MAX_QUERY_COUNT e) (traced func) params 0 [] (st, [])
               = Some ((st', log'), Inr items)"
    by (simp add: get_info_by_range_def)
  from range_loop_traced [OF this]
  show "paged (MAX_QUERY_COUNT e) 0 [] [] log' items" by blast
next
  assume "0 < MAX_QUERY_COUNT e"
  from range_loop_slice [OF this, of 0 ds params' "[]" st0 "[]"]
  show "get_info_by_range e (traced (slice_of ds)) params' (st0, [])
          = Some ((st0, map (window (MAX_QUERY_COUNT e) ds)
                          [0 ..< Suc (length ds div MAX_QUERY_COUNT e)]),
                  Inr ds)"
    by (simp add: get_info_by_range_def)
qed (simp_all add: range_loop_short range_loop_full range_loop_raise get_info_by_range_def)

theorem pager_fetches_windows_witness:
  "get_info_by_range (example_env (scripted [])) (traced (slice_of [0 ..< 250])) () ((), [])
     = Some (((), [\<lparr>fetch_start = 0, fetch_end = 100, fetched = Inr [0 ..< 100]\<rparr>,
                   \<lparr>fetch_start = 100, fetch_end = 200, fetched = Inr [100 ..< 200]\<rparr>,
                   \<lparr>fetch_start = 200, fetch_end = 300, fetched = Inr [200 ..< 250]\<rparr>]),
             Inr [0 ..< 250])
   \<and> map length [[0 ..< 100], [100 ..< 200], [200 ..< (250::nat)]] = [100, 100, 50]
   \<and> get_info_by_range ((example_env (scripted []))\<lparr>MAX_QUERY_COUNT := 2\<rparr>)
        (traced from_queue) () ([[1, 2, 3], [4 :: nat]], [])
     = Some (([], [\<lparr>fetch_start = 0, fetch_end = 2, fetched = Inr [1, 2, 3]\<rparr>,
                   \<lparr>fetch_start = 2, fetch_end = 4, fetched = Inr [4]\<rparr>]),
             Inr [1, 2, 3, 4])
   \<and> get_info_by_range ((example_env (scripted []))\<lparr>MAX_QUERY_COUNT := 2\<rparr>)
        from_queue () [[1, 2, 3 :: nat]]
     = Some ([], Inr [1, 2, 3])"
proof -
  let ?e2 = "(example_env (scripted []))\<lparr>MAX_QUERY_COUNT := 2\<rparr>"
  have m: "MAX_QUERY_COUNT (example_env (scripted [])) = 100" by (simp add: example_env_def)
  have m2: "MAX_QUERY_COUNT ?e2 = 2" by simp
  have n: "[0 ..< Suc (length [0 ..< (250::nat)] div 100)] = [0, 1, 2]"
    by (simp add: upt_conv_Cons)
  have "0 < MAX_QUERY_COUNT (example_env (scripted []))" by (simp add: m)
  with pager_fetches_windows [of "slice_of []" 0 0 "()" "()" "[]" "example_env (scripted [])"
         "[0 ..< (250::nat)]" "()" "()"]
  have "get_info_by_range (example_env (scripted [])) (traced (slice_of [0 ..< 250])) ()
          ((), [])
        = Some (((), map (window 100 [0 ..< 250]) [0, 1, 2]), Inr [0 ..< 250])"
    unfolding m n by blast
  then have a: "get_info_by_range (example_env (scripted [])) (traced (slice_of [0 ..< 250]))
                  () ((), [])
     = Some (((), [\<lparr>fetch_start = 0, fetch_end = 100, fetched = Inr [0 ..< 100]\<rparr>,
                   \<lparr>fetch_start = 100, fetch_end = 200, fetched = Inr [100 ..< 200]\<rparr>,
                   \<lparr>fetch_start = 200, fetch_end = 300, fetched = Inr [200 ..< 250]\<rparr>]),
             Inr [0 ..< 250])"
    by (simp add: window_def del: upt_rec_numeral)
  have sv: "serves (MAX_QUERY_COUNT ?e2) from_queue () 0 [[1, 2, 3], [4 :: nat]]
              [[1, 2, 3], [4]] []"
    and sv': "serves (MAX_QUERY_COUNT ?e2) from_queue () 0 [[1, 2, 3 :: nat]]
              [[1, 2, 3], []] []"
    by (simp_all add: from_queue_def)
  note q = pager_fetches_windows [of from_queue 0 0 "()" _ "[]" ?e2, THEN conjunct2,
             THEN conjunct2, THEN conjunct2, THEN conjunct2, THEN conjunct1, rule_format]
  have b: "get_info_by_range ?e2 (traced from_queue) () ([[1, 2, 3], [4 :: nat]], [])
             = Some (([], fetch_log (MAX_QUERY_COUNT ?e2) 0 [[1, 2, 3], [4]]),
                     Inr (concat [[1, 2, 3], [4]]))"
    by (rule q [OF sv, THEN conjunct2]) (simp_all add: m2)
  have c: "get_info_by_range ?e2 from_queue () [[1, 2, 3 :: nat]]
             = Some ([], Inr (concat [[1, 2, 3], []]))"
    by (rule q [OF sv', THEN conjunct1]) (simp_all add: m2)
  have fl: "fetch_log (MAX_QUERY_COUNT ?e2) 0 [[1, 2, 3], [4 :: nat]]
              = [\<lparr>fetch_start = 0, fetch_end = 2, fetched = Inr [1, 2, 3]\<rparr>,
                 \<lparr>fetch_start = 2, fetch_end = 4, fetched = Inr [4]\<rparr>]"
    by (simp add: fetch_log_Cons fetch_log_def)
  show ?thesis
    unfolding a b c fl by simp
qed

subsection \<open>\<^verbatim>\<open>login\<close>\<close>

lemma do_call_login:
  "do_call e ((init_http_head s)\<lparr>url := Some item_url\<rparr>) ''xx/sessions'' POST
     (Some (login_data u p)) (LOGIN_SOCKET_TIMEOUT e) =
   ((init_http_head s)\<lparr>url := Some item_url, wire := wire s @ [login_request e u p item_url]\<rparr>,
    case http e (wire s) (login_request e u p item_url) of
      RequestFailed \<Rightarrow> Inr (Envelope \<lparr>code = ERROR_CONNECT_TO_SERVER e,
                               description = ''Connect server error'', data = NoData\<rparr>)
    | Response status text parsed \<Rightarrow>
        if error_status status
        then Inr (Envelope \<lparr>code = status, description = text, data = NoData\<rparr>)
        else (case parsed of None \<Rightarrow> Inl JSONDecodeError | Some res_json \<Rightarrow> Inr res_json))"
  by (simp add: do_call_def init_http_head_def build_request_def login_request_def
        truthy_def login_data_def Let_def split: http_outcome.splits option.splits)

lemma login_loop_rejected:
  "rejects e (wire s) (login_request e u p item_url) \<Longrightarrow>
   login_loop e u p (item_url # rest) s =
     login_loop e u p rest
       ((init_http_head s)\<lparr>url := Some item_url,
          wire := wire s @ [login_request e u p item_url]\<rparr>)"
  by (auto simp: do_call_login rejects_def error_status_def Let_def
           split: http_outcome.splits option.splits res_json.splits)

lemma tried_Cons:
  "tried e u p pre
     ((init_http_head s)\<lparr>url := Some item_url,
        wire := wire s @ [login_request e u p item_url]\<rparr>)
   = tried e u p (item_url # pre) s"
  by (simp add: tried_def init_http_head_def)

lemma login_loop_prefix:
  "all_rejected e (login_request e u p) (wire s) pre \<Longrightarrow>
   login_loop e u p (pre @ rest) s = login_loop e u p rest (tried e u p pre s)"
proof (induction pre arbitrary: s)
  case Nil
  show ?case by (simp add: tried_def)
next
  case (Cons item_url pre)
  let ?s2 = "(init_http_head s)\<lparr>url := Some item_url,
               wire := wire s @ [login_request e u p item_url]\<rparr>"
  from Cons.prems have r: "rejects e (wire s) (login_request e u p item_url)"
    and a: "all_rejected e (login_request e u p) (wire ?s2) pre"
    by simp_all
  have "login_loop e u p ((item_url # pre) @ rest) s = login_loop e u p (pre @ rest) ?s2"
    using login_loop_rejected [OF r] by simp
  also have "\<dots> = login_loop e u p rest (tried e u p pre ?s2)"
    by (rule Cons.IH [OF a])
  finally show ?case by (simp only: tried_Cons)
qed

lemma tried_fields:
  "wire (tried e u p pre s) = wire s @ map (login_request e u p) pre"
  "ssl_cert_verify (tried e u p pre s) = ssl_cert_verify s"
  "ssl_cert_path (tried e u p pre s) = ssl_cert_path s"
  by (simp_all add: tried_def init_http_head_def)

lemma init_http_head_tried:
  "(init_http_head (tried e u p pre s))\<lparr>url := v, session := h, wire := w\<rparr>
   = (init_http_head s)\<lparr>url := v, session := h, wire := w\<rparr>"
  by (simp add: tried_def init_http_head_def)

lemma helper_update_order:
  "s\<lparr>wire := w, url := v, session := h\<rparr> = s\<lparr>url := v, session := h, wire := w\<rparr>"
  by simp

lemma get_data_device:
  assumes "get_data result deviceid = Inr (Some dev)"
  shows "get_data result iBaseToken = Inr (returned_token result)"
    and "get_data result accountstate = Inr st \<Longrightarrow> expired_state e st = password_expired e result"
    and "\<exists>st. get_data result accountstate = Inr st"
  using assms
  by (auto simp: get_data_def returned_token_def password_expired_def split: data_field.splits)

lemma login_loop_accepted:
  assumes "answers e (wire s) (login_request e u p item_url) result"
    and "code result = 0" and "get_data result deviceid = Inr (Some dev)"
  shows "login_loop e u p (item_url # rest) s =
     (if password_expired e result then
        (case logout e (accepted e u p [] item_url dev result s) of
           (s4, Inl x) \<Rightarrow> (s4, Inl x)
         | (s4, Inr v) \<Rightarrow>
             (s4, Inl (ShareBackendException
                ''Password has expired or initial, please change the password.'' None)))
      else (accepted e u p [] item_url dev result s, Inr ()))"
proof -
  from get_data_device(3) [OF assms(3)] obtain st where
    st: "get_data result accountstate = Inr st" ..
  have x: "expired_state e st = password_expired e result"
    using st by (rule get_data_device(2) [OF assms(3)])
  have h: "http e (wire s) (login_request e u p item_url)
             = Response status text parsed \<Longrightarrow>
           \<not> error_status status \<and> parsed = Some (Envelope result)" for status text parsed
    using assms(1) by (simp add: answers_def)
  show ?thesis
    using assms
    apply (simp only: login_loop.simps Let_def do_call_login)
    apply (auto simp: answers_def get_data_device(1) st x accepted_def init_http_head_def
             helper_update_order split: http_outcome.splits)
    done
qed

lemma login_loop_accepted_after:
  assumes "all_rejected e (login_request e u p) (wire s) pre"
    and "answers e (wire s @ map (login_request e u p) pre) (login_request e u p item_url)
           result"
    and "code result = 0" and "get_data result deviceid = Inr (Some dev)"
  shows "login_loop e u p (pre @ item_url # rest) s =
     (if password_expired e result then
        (case logout e (accepted e u p pre item_url dev result s) of
           (s4, Inl x) \<Rightarrow> (s4, Inl x)
         | (s4, Inr v) \<Rightarrow>
             (s4, Inl (ShareBackendException
                ''Password has expired or initial, please change the password.'' None)))
      else (accepted e u p pre item_url dev result s, Inr ()))"
proof -
  have acc: "accepted e u p [] item_url dev result (tried e u p pre s)
               = accepted e u p pre item_url dev result s"
    by (simp add: accepted_def tried_fields init_http_head_tried)
  have "answers e (wire (tried e u p pre s)) (login_request e u p item_url) result"
    using assms(2) by (simp add: tried_fields answers_def)
  from login_loop_accepted [OF this assms(3,4), of rest]
  show ?thesis
    unfolding login_loop_prefix [OF assms(1)] acc .
qed

text \<open>
  Claim C5.  With credentials that decode, \<^verbatim>\<open>login\<close> sends one login request per
  endpoint, in the order of the list and each without a token.  When the endpoints
  \<open>pre\<close> are rejected and the next one answers with an envelope of code 0, with a device
  id and an account state that is neither expired nor initial, \<^verbatim>\<open>login\<close> returns; the
  base URL is that
  endpoint followed by the device id, the token is the one returned, and the requests
  sent are those to \<open>pre\<close> and to that endpoint, none to the rest.  When every endpoint
  is rejected, \<^verbatim>\<open>login\<close> raises "All url login fail." after one request to each.
\<close>

theorem login_tries_endpoints_in_order:
  assumes "get_user_info e s = Inr (username, password)"
  shows "(\<forall>pre item_url rest result dev.
            nas_address s = pre @ item_url # rest
            \<longrightarrow> all_rejected e (login_request e username password) (wire s) pre
            \<longrightarrow> answers e (wire s @ map (login_request e username password) pre)
                   (login_request e username password item_url) result
            \<longrightarrow> code result = 0 \<longrightarrow> get_data result deviceid = Inr (Some dev)
            \<longrightarrow> \<not> password_expired e result
            \<longrightarrow> login e s
                  = ((init_http_head s)\<lparr>url := Some (item_url @ dev),
                       session := Some \<lparr>token = returned_token result,
                         verify = (if ssl_cert_verify s then Some (ssl_cert_path s)
                                   else None)\<rparr>,
                       wire := wire s @ map (login_request e username password)
                                          (pre @ [item_url])\<rparr>,
                     Inr ()))
       \<and> (all_rejected e (login_request e username password) (wire s) (nas_address s)
            \<longrightarrow> snd (login e s) = Inl (ShareBackendException ''All url login fail.'' None)
              \<and> wire (fst (login e s))
                  = wire s @ map (login_request e username password) (nas_address s))
       \<and> (\<forall>item_url. req_token (login_request e username password item_url) = None
            \<and> req_url (login_request e username password item_url)
                = item_url @ ''xx/sessions'')"
proof (intro conjI allI impI)
  fix pre item_url rest result dev
  assume "nas_address s = pre @ item_url # rest"
    and "all_rejected e (login_request e username password) (wire s) pre"
    and "answers e (wire s @ map (login_request e username password) pre)
           (login_request e username password item_url) result"
    and "code result = 0" and "get_data result deviceid = Inr (Some dev)"
    and "\<not> password_expired e result"
  then show "login e s
      = ((init_http_head s)\<lparr>url := Some (item_url @ dev),
           session := Some \<lparr>token = returned_token result,
             verify = (if ssl_cert_verify s then Some (ssl_cert_path s) else None)\<rparr>,
           wire := wire s @ map (login_request e username password) (pre @ [item_url])\<rparr>,
         Inr ())"
    using assms by (simp add: login_def login_loop_accepted_after accepted_def)
next
  assume a: "all_rejected e (login_request e username password) (wire s) (nas_address s)"
  from login_loop_prefix [OF a, of "[]"]
  have l: "login e s = (tried e username password (nas_address s) s,
                        Inl (ShareBackendException ''All url login fail.'' None))"
    using assms by (simp add: login_def)
  show "snd (login e s) = Inl (ShareBackendException ''All url login fail.'' None)"
    by (simp add: l)
  show "wire (fst (login e s))
          = wire s @ map (login_request e username password) (nas_address s)"
    by (simp add: l tried_fields)
qed (simp_all add: login_request_def)

theorem login_tries_endpoints_in_order_witness:
  "snd (login (example_env (scripted [answer 5, RequestFailed, login_ok ''dev7'' ''T9'' 1]))
          four_endpoints) = Inr ()
   \<and> url (fst (login (example_env (scripted [answer 5, RequestFailed,
                        login_ok ''dev7'' ''T9'' 1])) four_endpoints))
       = Some ''https://c/dev7''
   \<and> held_token (fst (login (example_env (scripted [answer 5, RequestFailed,
                        login_ok ''dev7'' ''T9'' 1])) four_endpoints))
       = Some ''T9''
   \<and> map req_url (wire (fst (login (example_env (scripted [answer 5, RequestFailed,
                        login_ok ''dev7'' ''T9'' 1])) four_endpoints)))
       = [''https://a/xx/sessions'', ''https://b/xx/sessions'', ''https://c/xx/sessions'']
   \<and> snd (login (example_env (scripted [])) four_endpoints)
       = Inl (ShareBackendException ''All url login fail.'' None)
   \<and> map req_url (wire (fst (login (example_env (scripted [])) four_endpoints)))
       = [''https://a/xx/sessions'', ''https://b/xx/sessions'', ''https://c/xx/sessions'',
          ''https://d/xx/sessions'']"
proof -
  let ?e = "example_env (scripted [answer 5, RequestFailed, login_ok ''dev7'' ''T9'' 1])"
  let ?f = "example_env (scripted [])"
  let ?r = "\<lparr>code = 0, description = [],
             data = Data \<lparr>deviceid = Some ''dev7'', iBaseToken = Some ''T9'',
                          accountstate = Some 1\<rparr>\<rparr>"
  have ge: "get_user_info ?e four_endpoints = Inr (''admin'', ''secret'')"
    and gf: "get_user_info ?f four_endpoints = Inr (''admin'', ''secret'')"
    by (simp_all add: get_user_info_def decode_credential_def example_defs)
  have 1: "nas_address four_endpoints
             = [''https://a/'', ''https://b/''] @ ''https://c/'' # [''https://d/'']"
    by (simp add: example_defs)
  have 2: "all_rejected ?e (login_request ?e ''admin'' ''secret'') (wire four_endpoints)
             [''https://a/'', ''https://b/'']"
    by (simp add: rejects_def error_status_def example_defs)
  have 3: "answers ?e (wire four_endpoints
                      @ map (login_request ?e ''admin'' ''secret'')
                          [''https://a/'', ''https://b/''])
             (login_request ?e ''admin'' ''secret'' ''https://c/'') ?r"
    by (simp add: answers_def error_status_def example_defs)
  have 4: "code ?r = 0" and 5: "get_data ?r deviceid = Inr (Some ''dev7'')"
    and 6: "\<not> password_expired ?e ?r"
    by (simp_all add: get_data_def password_expired_def expired_state_def example_defs)
  have 7: "all_rejected ?f (login_request ?f ''admin'' ''secret'') (wire four_endpoints)
             (nas_address four_endpoints)"
    by (simp add: rejects_def example_defs)
  note ok = login_tries_endpoints_in_order [OF ge, THEN conjunct1, rule_format,
              OF 1 2 3 4 5 6]
  note fail = login_tries_endpoints_in_order [OF gf, THEN conjunct2, THEN conjunct1,
                rule_format, OF 7]
  show ?thesis
    unfolding ok
    using fail
    by (simp add: held_token_def returned_token_def get_data_def login_request_def
          four_endpoints_def init_def)
qed

text \<open>
  Claim C6.  When the endpoints before it were rejected and an endpoint answers the login
  with an envelope of code 0, a device id and an account state in
  \<^verbatim>\<open>PWD_EXPIRED_OR_INITIAL\<close>,
  \<^verbatim>\<open>login\<close> calls \<^verbatim>\<open>logout\<close> on the new session, which puts one session-delete
  request with the new token on the wire, and then raises: the password exception when
  \<^verbatim>\<open>logout\<close> returned, the exception of \<^verbatim>\<open>logout\<close> otherwise.  Nothing is sent to
  the endpoints that follow and \<^verbatim>\<open>login\<close> does not return.
\<close>

theorem login_password_expired:
  assumes "get_user_info e s = Inr (username, password)"
    and "nas_address s = pre @ item_url # rest"
    and "all_rejected e (login_request e username password) (wire s) pre"
    and "answers e (wire s @ map (login_request e username password) pre)
           (login_request e username password item_url) result"
    and "code result = 0" and "get_data result deviceid = Inr (Some dev)"
    and "password_expired e result"
    and "item_url @ dev \<noteq> []"
  shows "login e s
       = ((accepted e username password pre item_url dev result s)
            \<lparr>wire := wire s @ map (login_request e username password) (pre @ [item_url])
                      @ [\<lparr>req_url = item_url @ dev @ ''/sessions'', req_method = DELETE,
                          req_data = None, req_timeout = SOCKET_TIMEOUT e,
                          req_token = returned_token result\<rparr>]\<rparr>,
          Inl (case snd (logout e (accepted e username password pre item_url dev result s)) of
                 Inl x \<Rightarrow> x
               | Inr v \<Rightarrow> ShareBackendException
                   ''Password has expired or initial, please change the password.'' None))"
proof -
  let ?s3 = "accepted e username password pre item_url dev result s"
  let ?h = "\<lparr>token = returned_token result,
             verify = (if ssl_cert_verify s then Some (ssl_cert_path s) else None)\<rparr>"
  have u: "url ?s3 = Some (item_url @ dev)" and h: "session ?s3 = Some ?h"
    and w: "wire ?s3 = wire s @ map (login_request e username password) (pre @ [item_url])"
    by (simp_all add: accepted_def)
  have rq: "build_request (item_url @ dev) ?h ''/sessions'' DELETE None (SOCKET_TIMEOUT e)
            = \<lparr>req_url = item_url @ dev @ ''/sessions'', req_method = DELETE,
               req_data = None, req_timeout = SOCKET_TIMEOUT e,
               req_token = returned_token result\<rparr>"
    by (simp add: build_request_def truthy_def)
  have lo: "fst (logout e ?s3)
            = ?s3\<lparr>wire := wire ?s3 @ [build_request (item_url @ dev) ?h ''/sessions'' DELETE
                                         None (SOCKET_TIMEOUT e)]\<rparr>"
    using assms(8)
    by (simp add: logout_def truthy_def u do_call_Some [OF u h]
          split: http_outcome.splits option.splits)
  have "login e s =
          (case logout e ?s3 of
             (s4, Inl x) \<Rightarrow> (s4, Inl x)
           | (s4, Inr v) \<Rightarrow>
               (s4, Inl (ShareBackendException
                  ''Password has expired or initial, please change the password.'' None)))"
    using assms(1,2,7)
    by (simp add: login_def login_loop_accepted_after [OF assms(3,4,5,6)])
  also have "\<dots> = (fst (logout e ?s3),
                     Inl (case snd (logout e ?s3) of
                            Inl x \<Rightarrow> x
                          | Inr v \<Rightarrow> ShareBackendException
                              ''Password has expired or initial, please change the password.''
                              None))"
    by (simp split: prod.splits sum.splits)
  finally show ?thesis
    unfolding lo rq w by simp
qed

theorem login_password_expired_witness:
  "snd (login (example_env (scripted [login_ok ''dev7'' ''T9'' 3, answer 0])) fresh_helper)
     = Inl (ShareBackendException
              ''Password has expired or initial, please change the password.'' None)
   \<and> wire (fst (login (example_env (scripted [login_ok ''dev7'' ''T9'' 3, answer 0]))
                   fresh_helper))
     = [\<lparr>req_url = ''https://a/xx/sessions'', req_method = POST,
         req_data = Some [(''username'', ''admin''), (''password'', ''secret''),
                          (''scope'', ''0'')],
         req_timeout = 32, req_token = None\<rparr>,
        \<lparr>req_url = ''https://a/dev7/sessions'', req_method = DELETE, req_data = None,
         req_timeout = 52, req_token = Some ''T9''\<rparr>]"
proof -
  let ?e = "example_env (scripted [login_ok ''dev7'' ''T9'' 3, answer 0])"
  let ?r = "\<lparr>code = 0, description = [],
             data = Data \<lparr>deviceid = Some ''dev7'', iBaseToken = Some ''T9'',
                          accountstate = Some 3\<rparr>\<rparr>"
  have g: "get_user_info ?e fresh_helper = Inr (''admin'', ''secret'')"
    by (simp add: get_user_info_def decode_credential_def example_defs)
  have 1: "nas_address fresh_helper = [] @ ''https://a/'' # [''https://b/'']"
    by (simp add: example_defs)
  have 2: "all_rejected ?e (login_request ?e ''admin'' ''secret'') (wire fresh_helper) []"
    by simp
  have 3: "answers ?e (wire fresh_helper @ map (login_request ?e ''admin'' ''secret'') [])
             (login_request ?e ''admin'' ''secret'' ''https://a/'') ?r"
    by (simp add: answers_def error_status_def example_defs)
  have 4: "code ?r = 0" and 5: "get_data ?r deviceid = Inr (Some ''dev7'')"
    and 6: "password_expired ?e ?r" and 7: "''https://a/'' @ ''dev7'' \<noteq> []"
    by (simp_all add: get_data_def password_expired_def expired_state_def example_defs)
  show ?thesis
    unfolding login_password_expired [OF g 1 2 3 4 5 6 7]
    by (simp add: op_defs accepted_def returned_token_def login_request_def example_defs)
qed

subsection \<open>\<^verbatim>\<open>logout\<close> and \<^verbatim>\<open>relogin\<close>\<close>

lemma logout_Some:
  assumes "url s = Some base" and "base \<noteq> []" and "session s = Some h"
  shows "logout e s =
     (s\<lparr>wire := wire s @ [build_request base h ''/sessions'' DELETE None (SOCKET_TIMEOUT e)]\<rparr>,
      case snd (do_call e s ''/sessions'' DELETE None (SOCKET_TIMEOUT e)) of
        Inl x \<Rightarrow> Inl x
      | Inr result \<Rightarrow> assert_result result ''Logout session error.'')"
  using assms
  by (simp add: logout_def truthy_def do_call_Some [OF assms(1,3)]
        split: http_outcome.splits option.splits)

text \<open>
  Claim C2.  \<^verbatim>\<open>relogin\<close> has three branches.  With \<^verbatim>\<open>self.url is None\<close> it is
  \<^verbatim>\<open>login\<close>, and the result says whether \<^verbatim>\<open>login\<close> returned.  With a base URL and
  the token of the session equal to \<open>old_token\<close> it is \<^verbatim>\<open>logout\<close> and then
  \<^verbatim>\<open>login\<close> on the helper that \<^verbatim>\<open>logout\<close> left; the result says whether \<^verbatim>\<open>login\<close>
  returned and does not depend on what \<^verbatim>\<open>logout\<close> returned or raised.  With a base URL
  and another token it returns \<open>True\<close> and the helper is the one it was given, so nothing
  has been sent.  On a helper whose base URL comes with a session it never raises.
\<close>

theorem relogin_three_way:
  "(url s = None
      \<longrightarrow> relogin e s old_token = (fst (login e s), Inr (\<not> isl (snd (login e s)))))
   \<and> (url s \<noteq> None \<longrightarrow> session s = Some h \<longrightarrow> old_token = token h
      \<longrightarrow> relogin e s old_token
            = (fst (login e (fst (logout e s))),
               Inr (\<not> isl (snd (login e (fst (logout e s)))))))
   \<and> (url s \<noteq> None \<longrightarrow> session s = Some h \<longrightarrow> old_token \<noteq> token h
      \<longrightarrow> relogin e s old_token = (s, Inr True))
   \<and> (wf_helper s \<longrightarrow> (\<exists>s' b. relogin e s old_token = (s', Inr b)))"
  by (auto simp: relogin_branches wf_helper_def)

theorem relogin_three_way_witness:
  "snd (relogin (example_env (scripted [login_ok ''dev7'' ''T9'' 1])) fresh_helper None)
     = Inr True
   \<and> snd (relogin (example_env (scripted [])) fresh_helper None) = Inr False
   \<and> snd (relogin (example_env (scripted [answer 9, login_ok ''dev7'' ''T9'' 1])) logged_in
            (Some ''T1'')) = Inr True
   \<and> snd (logout (example_env (scripted [answer 9, login_ok ''dev7'' ''T9'' 1])) logged_in)
       = Inl (ShareBackendException ''Logout session error.''
                (Some (Envelope \<lparr>code = 9, description = [], data = NoData\<rparr>)))
   \<and> snd (relogin (example_env (scripted [])) logged_in (Some ''T1'')) = Inr False
   \<and> relogin (example_env (scripted [])) logged_in (Some ''T0'') = (logged_in, Inr True)"
proof -
  let ?ok = "example_env (scripted [login_ok ''dev7'' ''T9'' 1])"
  let ?lo = "example_env (scripted [answer 9, login_ok ''dev7'' ''T9'' 1])"
  let ?no = "example_env (scripted [])"
  let ?h = "\<lparr>token = Some ''T1'', verify = None\<rparr>"
  have u0: "url fresh_helper = None" and u1: "url logged_in \<noteq> None"
    and h1: "session logged_in = Some ?h"
    and t1: "Some ''T1'' = token ?h" and t0: "Some ''T0'' \<noteq> token ?h"
    by (simp_all add: example_defs)
  note a = relogin_three_way [THEN conjunct1, rule_format, OF u0]
  note b = relogin_three_way [THEN conjunct2, THEN conjunct1, rule_format, OF u1 h1 t1]
  note c = relogin_three_way [THEN conjunct2, THEN conjunct2, THEN conjunct1, rule_format,
             OF u1 h1 t0]
  have l1: "snd (login ?ok fresh_helper) = Inr ()"
    by (simp add: op_defs example_defs)
  have l2: "snd (login ?no fresh_helper)
              = Inl (ShareBackendException ''All url login fail.'' None)"
    by (simp add: op_defs example_defs)
  have o3: "logout ?lo logged_in
              = (logged_in\<lparr>wire := [build_request ''https://a/dev1'' ?h ''/sessions'' DELETE
                                        None 52]\<rparr>,
                 Inl (ShareBackendException ''Logout session error.''
                        (Some (Envelope \<lparr>code = 9, description = [], data = NoData\<rparr>))))"
    by (simp add: op_defs example_defs)
  have l3: "snd (login ?lo (fst (logout ?lo logged_in))) = Inr ()"
    unfolding o3 by (simp add: op_defs example_defs)
  have l4: "snd (login ?no (fst (logout ?no logged_in)))
              = Inl (ShareBackendException ''All url login fail.'' None)"
    by (simp add: op_defs example_defs)
  have o3s: "snd (logout ?lo logged_in)
               = Inl (ShareBackendException ''Logout session error.''
                        (Some (Envelope \<lparr>code = 9, description = [], data = NoData\<rparr>)))"
    by (simp add: o3)
  show ?thesis
    unfolding a b c
    by (simp add: l1 l2 l3 l4 o3s)
qed

text \<open>
  Claim C4, as the code has it.  With a non-empty base URL and a session, \<^verbatim>\<open>logout\<close>
  puts the session-delete request on the wire and hands the result to
  \<^verbatim>\<open>_assert_result\<close>: it returns when the code is 0 and raises
  \<^verbatim>\<open>ShareBackendException\<close> ("Logout session error.") when it is not.  The failure is
  tolerated one level up: \<^verbatim>\<open>relogin\<close> with the current token goes on to \<^verbatim>\<open>login\<close>
  whatever \<^verbatim>\<open>logout\<close> did.  On a result that is no envelope \<^verbatim>\<open>logout\<close> raises
  what \<^verbatim>\<open>_error_code\<close> raises.
\<close>

theorem logout_raises_on_nonzero_code:
  assumes "url s = Some base" and "base \<noteq> []" and "session s = Some h"
  shows "fst (logout e s)
           = s\<lparr>wire := wire s @ [build_request base h ''/sessions'' DELETE None
                                   (SOCKET_TIMEOUT e)]\<rparr>
       \<and> (\<forall>result. snd (do_call e s ''/sessions'' DELETE None (SOCKET_TIMEOUT e))
                     = Inr (Envelope result)
            \<longrightarrow> snd (logout e s)
                  = (if code result = 0 then Inr ()
                     else Inl (ShareBackendException ''Logout session error.''
                                 (Some (Envelope result)))))
       \<and> relogin e s (token h)
           = (fst (login e (fst (logout e s))),
              Inr (\<not> isl (snd (login e (fst (logout e s))))))
       \<and> (\<forall>f. snd (do_call e s ''/sessions'' DELETE None (SOCKET_TIMEOUT e))
                = Inr (Malformed f)
            \<longrightarrow> snd (logout e s) = Inl (raise_of f))"
  using assms
  by (simp add: logout_Some [OF assms] relogin_branches assert_result_def error_code_def)

theorem logout_raises_on_nonzero_code_witness:
  "snd (logout (example_env (scripted [answer 0])) logged_in) = Inr ()
   \<and> snd (logout (example_env (scripted [Response 500 ''Server Error'' None])) logged_in)
       = Inl (ShareBackendException ''Logout session error.''
                (Some (Envelope \<lparr>code = 500, description = ''Server Error'',
                                 data = NoData\<rparr>)))
   \<and> wire (fst (logout (example_env (scripted [answer 0])) logged_in))
       = [\<lparr>req_url = ''https://a/dev1/sessions'', req_method = DELETE, req_data = None,
           req_timeout = 52, req_token = Some ''T1''\<rparr>]"
proof -
  let ?h = "\<lparr>token = Some ''T1'', verify = None\<rparr>"
  have u: "url logged_in = Some ''https://a/dev1''" and n: "''https://a/dev1'' \<noteq> []"
    and h: "session logged_in = Some ?h"
    by (simp_all add: example_defs)
  note t = logout_raises_on_nonzero_code [OF u n h]
  have a: "snd (do_call (example_env (scripted [answer 0])) logged_in ''/sessions'' DELETE None
                  (SOCKET_TIMEOUT (example_env (scripted [answer 0]))))
           = Inr (Envelope \<lparr>code = 0, description = [], data = NoData\<rparr>)"
    by (simp add: op_defs example_defs)
  have b: "snd (do_call (example_env (scripted [Response 500 ''Server Error'' None])) logged_in
                  ''/sessions'' DELETE None
                  (SOCKET_TIMEOUT (example_env (scripted [Response 500 ''Server Error'' None]))))
           = Inr (Envelope \<lparr>code = 500, description = ''Server Error'', data = NoData\<rparr>)"
    by (simp add: op_defs example_defs)
  from t [of "example_env (scripted [answer 0])", THEN conjunct2, THEN conjunct1,
          rule_format, OF a]
       t [of "example_env (scripted [Response 500 ''Server Error'' None])", THEN conjunct2,
          THEN conjunct1, rule_format, OF b]
       t [of "example_env (scripted [answer 0])", THEN conjunct1]
  show ?thesis
    by (simp add: build_request_def truthy_def example_defs)
qed

theorem logout_raises_counterexample:
  "snd (logout (example_env (scripted [answer 9])) logged_in)
     = Inl (ShareBackendException ''Logout session error.''
              (Some (Envelope \<lparr>code = 9, description = [], data = NoData\<rparr>)))"
  by (simp add: op_defs example_defs)

subsection \<open>\<^verbatim>\<open>call\<close>: relogin and retry\<close>

text \<open>
  Claim C1.  Let the first block of \<^verbatim>\<open>call\<close> end with a result whose code is in
  \<^verbatim>\<open>RELOGIN_ERROR_CODE\<close>.  When \<^verbatim>\<open>relogin\<close> returns \<open>False\<close>, \<^verbatim>\<open>call\<close> returns
  that first result as it is, and the helper is the one \<^verbatim>\<open>relogin\<close> left: nothing is
  sent after the relogin.  When \<^verbatim>\<open>relogin\<close> returns \<open>True\<close> and the second
  \<^verbatim>\<open>do_call\<close> returns a result, \<^verbatim>\<open>call\<close> returns that result, with the code set
  to 0 when it was \<^verbatim>\<open>RELOGIN_ERROR_PASS\<close> and unchanged otherwise (0 or not), and
  after the relogin exactly one request has gone on the wire: the same path, method, data
  and timeout, from the base URL and session that \<^verbatim>\<open>relogin\<close> left.  When the second
  result is no envelope, \<^verbatim>\<open>call\<close> raises what \<^verbatim>\<open>_error_code\<close> raises on it.
\<close>

theorem call_relogin_retry:
  assumes "call_first e s p m d t = (s1, Inr (old_token, Envelope result))"
    and "code result \<in> set (RELOGIN_ERROR_CODE e)"
  shows "(\<forall>s2. relogin e s1 old_token = (s2, Inr False)
            \<longrightarrow> call e s p m d t = (s2, Inr (Envelope result)))
       \<and> (\<forall>s2 s3 result2.
            relogin e s1 old_token = (s2, Inr True)
            \<longrightarrow> do_call e s2 p m d (call_timeout e t) = (s3, Inr (Envelope result2))
            \<longrightarrow> call e s p m d t
                  = (s3, Inr (Envelope (if code result2 = RELOGIN_ERROR_PASS e
                                        then result2\<lparr>code := 0\<rparr> else result2)))
              \<and> (\<exists>base h. url s2 = Some base \<and> session s2 = Some h
                    \<and> wire s3 = wire s2 @ [build_request base h p m d (call_timeout e t)]))
       \<and> (\<forall>s2 s3 f.
            relogin e s1 old_token = (s2, Inr True)
            \<longrightarrow> do_call e s2 p m d (call_timeout e t) = (s3, Inr (Malformed f))
            \<longrightarrow> call e s p m d t = (s3, Inl (raise_of f)))"
proof (intro conjI allI impI)
  fix s2
  assume "relogin e s1 old_token = (s2, Inr False)"
  with assms show "call e s p m d t = (s2, Inr (Envelope result))"
    by (simp add: call_def error_code_def)
next
  fix s2 s3 result2
  assume r: "relogin e s1 old_token = (s2, Inr True)"
    and d: "do_call e s2 p m d (call_timeout e t) = (s3, Inr (Envelope result2))"
  with assms
  show "call e s p m d t
          = (s3, Inr (Envelope (if code result2 = RELOGIN_ERROR_PASS e
                                then result2\<lparr>code := 0\<rparr> else result2)))"
    by (simp add: call_def error_code_def)
  from do_call_returns [OF d]
  show "\<exists>base h. url s2 = Some base \<and> session s2 = Some h
          \<and> wire s3 = wire s2 @ [build_request base h p m d (call_timeout e t)]"
    by auto
next
  fix s2 s3 f
  assume "relogin e s1 old_token = (s2, Inr True)"
    and "do_call e s2 p m d (call_timeout e t) = (s3, Inr (Malformed f))"
  with assms show "call e s p m d t = (s3, Inl (raise_of f))"
    by (simp add: call_def error_code_def)
qed

theorem call_relogin_retry_witness:
  "snd (call (example_env (scripted [answer (- 401), answer 0, login_ok ''dev7'' ''T9'' 1,
                                      answer 1077949069]))
          logged_in ''/filesystem'' POST (Some [(''NAME'', ''fs1'')]) None)
     = Inr (Envelope \<lparr>code = 0, description = [], data = NoData\<rparr>)
   \<and> map req_url
       (wire (fst (call (example_env (scripted [answer (- 401), answer 0,
                            login_ok ''dev7'' ''T9'' 1, answer 1077949069]))
                     logged_in ''/filesystem'' POST (Some [(''NAME'', ''fs1'')]) None)))
     = [''https://a/dev1/filesystem'', ''https://a/dev1/sessions'', ''https://a/xx/sessions'',
        ''https://a/dev7/filesystem'']
   \<and> snd (call (example_env (scripted [answer (- 401)])) logged_in ''/filesystem'' POST
            (Some [(''NAME'', ''fs1'')]) None)
     = Inr (Envelope \<lparr>code = - 401, description = [], data = NoData\<rparr>)
   \<and> map req_url
       (wire (fst (call (example_env (scripted [answer (- 401)])) logged_in ''/filesystem''
                     POST (Some [(''NAME'', ''fs1'')]) None)))
     = [''https://a/dev1/filesystem'', ''https://a/dev1/sessions'', ''https://a/xx/sessions'',
        ''https://b/xx/sessions'']"
proof -
  let ?e = "example_env (scripted [answer (- 401), answer 0, login_ok ''dev7'' ''T9'' 1,
                                    answer 1077949069])"
  let ?f = "example_env (scripted [answer (- 401)])"
  let ?d = "Some [(''NAME'', ''fs1'')]"
  let ?r = "\<lparr>code = - 401, description = [], data = NoData\<rparr>"
  let ?rq1 = "\<lparr>req_url = ''https://a/dev1/filesystem'', req_method = POST, req_data = ?d,
                req_timeout = 52, req_token = Some ''T1''\<rparr>"
  let ?del = "\<lparr>req_url = ''https://a/dev1/sessions'', req_method = DELETE, req_data = None,
                req_timeout = 52, req_token = Some ''T1''\<rparr>"
  let ?lga = "login_request ?e ''admin'' ''secret'' ''https://a/''"
  let ?lgb = "login_request ?e ''admin'' ''secret'' ''https://b/''"
  let ?s1 = "logged_in\<lparr>wire := [?rq1]\<rparr>"
  let ?s2 = "logged_in\<lparr>url := Some ''https://a/dev7'',
               session := Some \<lparr>token = Some ''T9'', verify = None\<rparr>,
               wire := [?rq1, ?del, ?lga]\<rparr>"
  let ?rq4 = "\<lparr>req_url = ''https://a/dev7/filesystem'', req_method = POST, req_data = ?d,
                req_timeout = 52, req_token = Some ''T9''\<rparr>"
  let ?s3 = "?s2\<lparr>wire := [?rq1, ?del, ?lga, ?rq4]\<rparr>"
  let ?t2 = "logged_in\<lparr>url := Some ''https://b/'',
               session := Some \<lparr>token = None, verify = None\<rparr>,
               wire := [?rq1, ?del, ?lga, ?lgb]\<rparr>"
  have e1: "call_first ?e logged_in ''/filesystem'' POST ?d None
              = (?s1, Inr (Some ''T1'', Envelope ?r))"
    and f1: "call_first ?f logged_in ''/filesystem'' POST ?d None
              = (?s1, Inr (Some ''T1'', Envelope ?r))"
    by (simp_all add: call_first_def op_defs example_defs)
  have e2: "code ?r \<in> set (RELOGIN_ERROR_CODE ?e)"
    and f2: "code ?r \<in> set (RELOGIN_ERROR_CODE ?f)"
    by (simp_all add: example_defs)
  have e3: "relogin ?e ?s1 (Some ''T1'') = (?s2, Inr True)"
    by (simp add: relogin_def op_defs login_request_def example_defs)
  have f3: "relogin ?f ?s1 (Some ''T1'') = (?t2, Inr False)"
    by (simp add: relogin_def op_defs login_request_def example_defs)
  have e4: "do_call ?e ?s2 ''/filesystem'' POST ?d (call_timeout ?e None)
              = (?s3, Inr (Envelope \<lparr>code = 1077949069, description = [], data = NoData\<rparr>))"
    by (simp add: op_defs login_request_def example_defs)
  note ok = call_relogin_retry [OF e1 e2, THEN conjunct2, THEN conjunct1, rule_format,
              OF e3 e4, THEN conjunct1]
  note no = call_relogin_retry [OF f1 f2, THEN conjunct1, rule_format, OF f3]
  show ?thesis
    unfolding ok no
    by (simp add: login_request_def example_defs)
qed

subsection \<open>Base URL and token\<close>








end
